theory Spec2Isabelle
  imports Complex_Main
begin

section \<open>JavaScript values\<close>

text \<open>
  Finite numbers are mathematical integers (\<open>int\<close>); fractional numbers are
  outside this model. A value of type \<open>number\<close> that the caller supplies or that
  a division produces is a \<open>js_number\<close>: an integer, one of the two infinities, or
  \<open>NaN\<close>. An optional property or parameter (\<open>page?: number\<close>, a
  defaulted parameter) is an \<open>option\<close>: \<open>None\<close> is \<open>undefined\<close>.
\<close>

datatype js_number = Num int | PosInfinity | NegInfinity | NaN

text \<open>\<open>a <= b\<close> on numbers: false as soon as an operand is \<open>NaN\<close>.\<close>

fun js_le :: "js_number \<Rightarrow> js_number \<Rightarrow> bool" where
  "js_le NaN b = False"
| "js_le a NaN = False"
| "js_le NegInfinity b = True"
| "js_le a PosInfinity = True"
| "js_le (Num a) (Num b) = (a \<le> b)"
| "js_le a b = False"

text \<open>\<open>Math.max(a, b)\<close> and \<open>Math.min(a, b)\<close>: \<open>NaN\<close> as soon as an argument is \<open>NaN\<close>.\<close>

definition math_max :: "js_number \<Rightarrow> js_number \<Rightarrow> js_number" where
  "math_max a b = (if a = NaN \<or> b = NaN then NaN else if js_le a b then b else a)"

definition math_min :: "js_number \<Rightarrow> js_number \<Rightarrow> js_number" where
  "math_min a b = (if a = NaN \<or> b = NaN then NaN else if js_le a b then a else b)"

text \<open>\<open>a - b\<close> and \<open>a * b\<close>.\<close>

fun js_sub :: "js_number \<Rightarrow> js_number \<Rightarrow> js_number" where
  "js_sub NaN b = NaN"
| "js_sub a NaN = NaN"
| "js_sub (Num a) (Num b) = Num (a - b)"
| "js_sub PosInfinity PosInfinity = NaN"
| "js_sub NegInfinity NegInfinity = NaN"
| "js_sub PosInfinity b = PosInfinity"
| "js_sub NegInfinity b = NegInfinity"
| "js_sub (Num a) PosInfinity = NegInfinity"
| "js_sub (Num a) NegInfinity = PosInfinity"

fun js_sign :: "js_number \<Rightarrow> int" where
  "js_sign (Num a) = sgn a"
| "js_sign PosInfinity = 1"
| "js_sign NegInfinity = - 1"
| "js_sign NaN = 0"

fun js_mul :: "js_number \<Rightarrow> js_number \<Rightarrow> js_number" where
  "js_mul NaN b = NaN"
| "js_mul a NaN = NaN"
| "js_mul (Num a) (Num b) = Num (a * b)"
| "js_mul a b =
     (let s = js_sign a * js_sign b
      in if s = 0 then NaN else if 0 < s then PosInfinity else NegInfinity)"

text \<open>
  A value of type \<open>number | undefined\<close> where a number is expected
  (\<open>ToNumber\<close>): \<open>undefined\<close> becomes \<open>NaN\<close>.
\<close>

definition to_number :: "js_number option \<Rightarrow> js_number" where
  "to_number x = (case x of Some n \<Rightarrow> n | None \<Rightarrow> NaN)"

text \<open>
  A value of type \<open>unknown\<close>. \<open>VObject r\<close> is a reference to an object or array;
  two references are \<open>===\<close> when they are the same reference.
\<close>

datatype js_value =
    VUndefined
  | VNull
  | VBoolean bool
  | VNumber js_number
  | VString string
  | VObject nat

text \<open>Truthiness (\<open>if (x)\<close>, \<open>x && y\<close>, \<open>x || y\<close>).\<close>

fun truthy :: "js_value \<Rightarrow> bool" where
  "truthy VUndefined = False"
| "truthy VNull = False"
| "truthy (VBoolean b) = b"
| "truthy (VNumber n) = (n \<noteq> Num 0 \<and> n \<noteq> NaN)"
| "truthy (VString s) = (s \<noteq> [])"
| "truthy (VObject r) = True"

text \<open>
  A plain object (\<open>Record<string, unknown>\<close>): its own enumerable properties in
  enumeration order, each key once. (JavaScript enumerates integer-like keys first;
  the list is the object in the order \<open>for ... in\<close> and \<open>Object.entries\<close> visit it.)
\<close>

type_synonym js_object = "(string \<times> js_value) list"

text \<open>\<open>Object.prototype.hasOwnProperty.call(obj, key)\<close>\<close>

definition has_own :: "js_object \<Rightarrow> string \<Rightarrow> bool" where
  "has_own obj k = (k \<in> set (map fst obj))"

text \<open>\<open>obj[key]\<close>: a property the object does not have reads as \<open>undefined\<close>.\<close>

definition get_prop :: "js_object \<Rightarrow> string \<Rightarrow> js_value" where
  "get_prop obj k = (case map_of obj k of Some v \<Rightarrow> v | None \<Rightarrow> VUndefined)"

text \<open>
  Writing the own property \<open>key\<close> of an object: an existing property keeps its
  place, a new one is added last. This is what an object literal and a spread do
  for every key, and what the assignment \<open>obj[key] = v\<close> does when no setter
  intercepts it (see \<open>assign\<close> below for the key \<open>__proto__\<close>).
\<close>

fun set_prop :: "js_object \<Rightarrow> string \<Rightarrow> js_value \<Rightarrow> js_object" where
  "set_prop [] k v = [(k, v)]"
| "set_prop (p # ps) k v = (if fst p = k then (k, v) # ps else p # set_prop ps k v)"

text \<open>\<open>delete obj[key]\<close>\<close>

definition delete_prop :: "js_object \<Rightarrow> string \<Rightarrow> js_object" where
  "delete_prop obj k = filter (\<lambda>p. fst p \<noteq> k) obj"

text \<open>
  The spread \<open>...src\<close> inside an object literal that so far holds \<open>target\<close>: every
  own property of \<open>src\<close> is defined on the new object, in order (no setter is
  involved, whatever the key).
\<close>

fun spread :: "js_object \<Rightarrow> js_object \<Rightarrow> js_object" where
  "spread target [] = target"
| "spread target (p # ps) = spread (set_prop target (fst p) (snd p)) ps"

text \<open>The keys a \<open>for (const key in obj)\<close> loop visits that pass the own-property test.\<close>

definition own_keys :: "js_object \<Rightarrow> string list" where
  "own_keys obj = map fst obj"

text \<open>\<open>a ?? b\<close>: the left operand unless it is \<open>undefined\<close> (or \<open>null\<close>).\<close>

definition nullish :: "'a option \<Rightarrow> 'a \<Rightarrow> 'a" where
  "nullish a b = (case a of Some v \<Rightarrow> v | None \<Rightarrow> b)"

text \<open>\<open>a ?? b\<close> where \<open>b\<close> may be \<open>undefined\<close> as well.\<close>

definition coalesce :: "'a option \<Rightarrow> 'a option \<Rightarrow> 'a option" where
  "coalesce a b = (case a of Some v \<Rightarrow> Some v | None \<Rightarrow> b)"

text \<open>
  \<open>String(n)\<close> for a number: decimal digits, a minus sign below zero, and the names
  of the non-finite numbers. (JavaScript prints an integer this way up to
  \<open>10^21\<close>, which covers array indices and counts.)
\<close>

function string_of_nat :: "nat \<Rightarrow> string" where
  "string_of_nat n =
     (if n < 10 then [''0123456789'' ! n]
      else string_of_nat (n div 10) @ [''0123456789'' ! (n mod 10)])"
  by pat_completeness auto
termination
  by (relation "measure id") auto

declare string_of_nat.simps [simp del]

fun string_of_number :: "js_number \<Rightarrow> string" where
  "string_of_number (Num n) =
     (if n < 0 then CHR ''-'' # string_of_nat (nat (- n)) else string_of_nat (nat n))"
| "string_of_number PosInfinity = ''Infinity''"
| "string_of_number NegInfinity = ''-Infinity''"
| "string_of_number NaN = ''NaN''"

text \<open>\<open>parts.join(sep)\<close>\<close>

fun join :: "string \<Rightarrow> string list \<Rightarrow> string" where
  "join sep [] = []"
| "join sep [x] = x"
| "join sep (x # y # zs) = x @ sep @ join sep (y # zs)"

section \<open>Pagination (src/pagination)\<close>

subsection \<open>Types (pagination/types.ts)\<close>

datatype SortDirection = Asc | Desc

text \<open>
  \<open>page\<close> and \<open>limit\<close> are of type \<open>number\<close>, which \<open>NaN\<close> and the infinities
  inhabit.
\<close>

record PaginationQuery =
  page :: "js_number option"
  limit :: "js_number option"
  search :: "string option"
  sortBy :: "string option"
  sortOrder :: "SortDirection option"

record DefaultSort =
  key :: string
  val :: SortDirection

text \<open>
  \<open>WhereClauseResult<T>\<close>: the fields \<open>where\<close>, \<open>orderBy\<close>, \<open>page\<close>, \<open>skip\<close>,
  \<open>limit\<close>. The names \<open>page\<close> and \<open>limit\<close> are taken by the query record and
  \<open>where\<close> is reserved, hence the prefix. \<open>orderBy\<close> is a
  \<open>Record<string, SortDirection>\<close>: a map from keys to directions.
\<close>

record 'w WhereClauseResult =
  res_where :: 'w
  res_orderBy :: "string \<rightharpoonup> SortDirection"
  res_page :: js_number
  res_skip :: js_number
  res_limit :: js_number

text \<open>
  The four fields of a pagination configuration, for three kinds of content:
  \<^item> \<open>PaginationConfig\<close>, every field a number (\<open>js_number\<close>);
  \<^item> \<open>Partial<PaginationConfig>\<close>, where a field is absent, or present with a
    number or with \<open>undefined\<close> (\<open>js_number option property\<close>);
  \<^item> the merged object \<open>{ ...DEFAULT_PAGINATION_CONFIG, ...config }\<close>, where a
    field holds a number or \<open>undefined\<close> (\<open>js_number option\<close>).
\<close>

datatype 'a property = Absent | Present 'a

record 'n PaginationConfig =
  defaultLimit :: 'n
  maxLimit :: 'n
  minLimit :: 'n
  defaultPage :: 'n

definition DEFAULT_PAGINATION_CONFIG :: "js_number PaginationConfig" where
  "DEFAULT_PAGINATION_CONFIG =
     \<lparr>defaultLimit = Num 20, maxLimit = Num 100, minLimit = Num 1, defaultPage = Num 1\<rparr>"

record PaginationMeta =
  total :: int
  currentPage :: int
  pageSize :: int
  totalPages :: js_number
  hasNextPage :: bool
  hasPreviousPage :: bool

subsection \<open>generateWhereClause\<close>

text \<open>
  One field of the spread \<open>{ ...DEFAULT_PAGINATION_CONFIG, ...config }\<close>: a field
  that \<open>config\<close> has, also with the value \<open>undefined\<close>, replaces the default one.
\<close>

definition spread_field :: "js_number \<Rightarrow> js_number option property \<Rightarrow> js_number option" where
  "spread_field d f = (case f of Absent \<Rightarrow> Some d | Present v \<Rightarrow> v)"

text \<open>
  \<open>mergedConfig\<close>. The parameter default \<open>config = DEFAULT_PAGINATION_CONFIG\<close>
  stands in for an absent argument (\<open>None\<close>).
\<close>

definition mergeConfig ::
  "js_number option property PaginationConfig option \<Rightarrow> js_number option PaginationConfig" where
  "mergeConfig config =
     (case config of
        None \<Rightarrow>
          \<lparr>defaultLimit = Some (defaultLimit DEFAULT_PAGINATION_CONFIG),
           maxLimit = Some (maxLimit DEFAULT_PAGINATION_CONFIG),
           minLimit = Some (minLimit DEFAULT_PAGINATION_CONFIG),
           defaultPage = Some (defaultPage DEFAULT_PAGINATION_CONFIG)\<rparr>
      | Some c \<Rightarrow>
          \<lparr>defaultLimit =
             spread_field (defaultLimit DEFAULT_PAGINATION_CONFIG) (defaultLimit c),
           maxLimit = spread_field (maxLimit DEFAULT_PAGINATION_CONFIG) (maxLimit c),
           minLimit = spread_field (minLimit DEFAULT_PAGINATION_CONFIG) (minLimit c),
           defaultPage =
             spread_field (defaultPage DEFAULT_PAGINATION_CONFIG) (defaultPage c)\<rparr>)"

text \<open>
  Truthiness, as the test \<open>query.sortBy && query.sortOrder\<close> reads it: a string is
  truthy when it is present and not empty; a sort direction (\<open>"asc"\<close> or \<open>"desc"\<close>)
  is truthy when it is present.
\<close>

definition truthy_string :: "string option \<Rightarrow> bool" where
  "truthy_string s = (case s of None \<Rightarrow> False | Some t \<Rightarrow> t \<noteq> [])"

definition truthy_direction :: "SortDirection option \<Rightarrow> bool" where
  "truthy_direction d = (case d of None \<Rightarrow> False | Some _ \<Rightarrow> True)"

text \<open>
  \<open>const orderBy = {}; orderBy[k] = d\<close> for a sort direction \<open>d\<close>: the object gets
  the own property \<open>k\<close>, unless \<open>k\<close> is \<open>__proto__\<close>. That assignment goes to the
  setter \<open>Object.prototype\<close> has under this name, which ignores a value that is a
  string, and \<open>orderBy\<close> stays empty.
\<close>

definition orderBy_assigned :: "string \<Rightarrow> SortDirection \<Rightarrow> (string \<rightharpoonup> SortDirection)" where
  "orderBy_assigned k d = (if k = ''__proto__'' then Map.empty else Map.empty(k \<mapsto> d))"

definition generateWhereClause ::
  "PaginationQuery \<Rightarrow> DefaultSort \<Rightarrow> 'w \<Rightarrow> js_number option property PaginationConfig option
     \<Rightarrow> 'w WhereClauseResult" where
  "generateWhereClause query defaultSort defaultWhere config =
     (let mergedConfig = mergeConfig config;
          pg = math_max (to_number (coalesce (page query) (defaultPage mergedConfig)))
                 (Num 1);
          lmt = math_min
                  (math_max (to_number (coalesce (limit query) (defaultLimit mergedConfig)))
                     (to_number (minLimit mergedConfig)))
                  (to_number (maxLimit mergedConfig));
          sk = js_mul (js_sub pg (Num 1)) lmt;
          ob = (if truthy_string (sortBy query) \<and> truthy_direction (sortOrder query)
                then orderBy_assigned (the (sortBy query)) (the (sortOrder query))
                else orderBy_assigned (key defaultSort) (val defaultSort))
      in \<lparr>res_where = defaultWhere, res_orderBy = ob, res_page = pg,
          res_skip = sk, res_limit = lmt\<rparr>)"

subsection \<open>generatePagination\<close>

text \<open>
  \<open>Math.ceil(a / b)\<close> on integers. Dividing by zero does not raise in JavaScript:
  \<open>0 / 0\<close> is \<open>NaN\<close> and \<open>a / 0\<close> is an infinity with the sign of \<open>a\<close>.
\<close>

definition ceil_div :: "int \<Rightarrow> int \<Rightarrow> js_number" where
  "ceil_div a b =
     (if b = 0 then (if a = 0 then NaN else if 0 < a then PosInfinity else NegInfinity)
      else Num \<lceil>real_of_int a / real_of_int b\<rceil>)"

text \<open>\<open>x || 1\<close>: the falsy numbers are \<open>0\<close> and \<open>NaN\<close>.\<close>

fun or_one :: "js_number \<Rightarrow> js_number" where
  "or_one (Num n) = (if n = 0 then Num 1 else Num n)"
| "or_one NaN = Num 1"
| "or_one PosInfinity = PosInfinity"
| "or_one NegInfinity = NegInfinity"

text \<open>\<open>page < totalPages\<close> for an integer \<open>page\<close>.\<close>

fun int_less :: "int \<Rightarrow> js_number \<Rightarrow> bool" where
  "int_less p (Num n) = (p < n)"
| "int_less p PosInfinity = True"
| "int_less p NegInfinity = False"
| "int_less p NaN = False"

definition generatePagination :: "int \<Rightarrow> int \<Rightarrow> int \<Rightarrow> PaginationMeta" where
  "generatePagination tot pg lmt =
     (let tp = or_one (ceil_div tot lmt)
      in \<lparr>total = tot, currentPage = pg, pageSize = lmt, totalPages = tp,
          hasNextPage = int_less pg tp, hasPreviousPage = (1 < pg)\<rparr>)"

subsection \<open>generatePageNumbers\<close>

datatype page_item = Page int | Ellipsis

text \<open>
  The parameter default \<open>maxVisible: number = 5\<close>.
\<close>

definition maxVisible_default :: "int option \<Rightarrow> int" where
  "maxVisible_default maxVisible = nullish maxVisible 5"

text \<open>
  \<open>Array.from({ length: totalPages }, (_, i) => i + 1)\<close>: a length below zero is
  read as zero.
\<close>

definition array_from_length :: "int \<Rightarrow> page_item list" where
  "array_from_length n = map (\<lambda>i. Page (int i + 1)) [0..<nat n]"

text \<open>
  The two loop shapes of the function, each pushing \<open>i\<close> onto \<open>pages\<close>:
  \<open>for (let i = lo; i <= hi; i++)\<close> and \<open>for (let i = lo; i < hi; i++)\<close>.
\<close>

function push_while_le :: "int \<Rightarrow> int \<Rightarrow> page_item list \<Rightarrow> page_item list" where
  "push_while_le i hi pages =
     (if i \<le> hi then push_while_le (i + 1) hi (pages @ [Page i]) else pages)"
  by pat_completeness auto
termination
  by (relation "measure (\<lambda>(i, hi, pages). nat (hi + 1 - i))") auto

declare push_while_le.simps [simp del]

function push_while_lt :: "int \<Rightarrow> int \<Rightarrow> page_item list \<Rightarrow> page_item list" where
  "push_while_lt i hi pages =
     (if i < hi then push_while_lt (i + 1) hi (pages @ [Page i]) else pages)"
  by pat_completeness auto
termination
  by (relation "measure (\<lambda>(i, hi, pages). nat (hi - i))") auto

declare push_while_lt.simps [simp del]

definition generatePageNumbers :: "int \<Rightarrow> int \<Rightarrow> int option \<Rightarrow> page_item list" where
  "generatePageNumbers cur tot maxVisible_arg =
     (let maxVisible = maxVisible_default maxVisible_arg in
      if tot \<le> maxVisible then array_from_length tot
      else
        let halfVisible = (maxVisible - 3) div 2;
            pages = [Page 1];
            pages =
              (if cur \<le> halfVisible + 2 then
                 push_while_le 2 (maxVisible - 2) pages @ [Ellipsis]
               else if cur \<ge> tot - halfVisible - 1 then
                 push_while_lt (tot - maxVisible + 3) tot (pages @ [Ellipsis])
               else
                 push_while_le (cur - halfVisible) (cur + halfVisible) (pages @ [Ellipsis])
                   @ [Ellipsis])
        in pages @ [Page tot])"

text \<open>
  The sequence as the specification's branch formulas give it, for comparison with
  the function above.
\<close>

definition page_numbers_formula :: "int \<Rightarrow> int \<Rightarrow> int \<Rightarrow> page_item list" where
  "page_numbers_formula cur tot maxVisible =
     (if tot \<le> maxVisible then map Page [1..tot]
      else
        let halfVisible = (maxVisible - 3) div 2 in
        if cur \<le> halfVisible + 2 then
          Page 1 # map Page [2..maxVisible - 2] @ [Ellipsis, Page tot]
        else if cur \<ge> tot - halfVisible - 1 then
          Page 1 # Ellipsis # map Page [tot - maxVisible + 3..tot - 1] @ [Page tot]
        else
          Page 1 # Ellipsis # map Page [cur - halfVisible..cur + halfVisible]
            @ [Ellipsis, Page tot])"

fun is_page :: "page_item \<Rightarrow> bool" where
  "is_page (Page n) = True"
| "is_page Ellipsis = False"

section \<open>Object utilities (src/utils/sanitize.ts)\<close>

subsection \<open>Objects in the store\<close>

text \<open>
  Objects are passed by reference, and what \<open>result[key] = value\<close> does depends on
  the prototype of \<open>result\<close>; so the functions of this module work on a store. A
  heap is the list of the objects allocated so far, a reference (\<open>VObject r\<close>) is
  an index into it, and a new object is allocated at the end.

  An object is its own properties and its prototype. The objects of this model are
  the plain data objects that object literals, \<open>JSON.parse\<close> and the functions
  below create: every property is an own, enumerable, writable data property, and
  the prototype is \<open>Object.prototype\<close>, \<open>null\<close> or another object of the heap.
  Accessors, frozen objects and proxies are outside the model.
\<close>

datatype prototype = ObjectPrototype | NullPrototype | ObjectRef nat

record heap_object =
  props :: js_object
  proto :: prototype

type_synonym heap = "heap_object list"

text \<open>The object an object literal with the properties \<open>ps\<close> creates.\<close>

definition plain :: "js_object \<Rightarrow> heap_object" where
  "plain ps = \<lparr>props = ps, proto = ObjectPrototype\<rparr>"

definition deref :: "heap \<Rightarrow> nat \<Rightarrow> heap_object" where
  "deref h r = (if r < length h then h ! r else plain [])"

definition alloc :: "heap \<Rightarrow> heap_object \<Rightarrow> heap \<times> nat" where
  "alloc h obj = (h @ [obj], length h)"

definition store :: "heap \<Rightarrow> nat \<Rightarrow> heap_object \<Rightarrow> heap" where
  "store h r obj = h[r := obj]"

text \<open>
  \<open>Object.prototype\<close> has one accessor property, \<open>__proto__\<close>. An object that does
  not own the key \<open>__proto__\<close> inherits the accessor when the walk along its
  prototype chain reaches \<open>Object.prototype\<close> before it meets an object that owns
  a property of that name or the end of the chain (\<open>null\<close>). The first argument
  bounds the walk; a chain has no cycle, so it is shorter than the heap.
\<close>

fun accessor_inherited :: "nat \<Rightarrow> heap \<Rightarrow> prototype \<Rightarrow> bool" where
  "accessor_inherited n h ObjectPrototype = True"
| "accessor_inherited n h NullPrototype = False"
| "accessor_inherited 0 h (ObjectRef r) = False"
| "accessor_inherited (Suc n) h (ObjectRef r) =
     (if has_own (props (deref h r)) ''__proto__'' then False
      else accessor_inherited n h (proto (deref h r)))"

text \<open>
  The assignment \<open>target[k] = v\<close>.
  \<^item> A key the target owns is updated.
  \<^item> Otherwise, the key \<open>__proto__\<close> of a target that inherits the accessor goes to
    its setter: an object or \<open>null\<close> becomes the prototype of the target, any other
    value is ignored, and in no case does the target get an own property. (The
    setter throws when the new prototype chain would contain the target; a target
    that was just created is in no chain.)
  \<^item> Otherwise the target gets the new own property: every other property an
    object of this model inherits is a writable data property.
\<close>

definition assign :: "heap \<Rightarrow> nat \<Rightarrow> string \<Rightarrow> js_value \<Rightarrow> heap" where
  "assign h target k v =
     (let t = deref h target in
      if has_own (props t) k then store h target (t\<lparr>props := set_prop (props t) k v\<rparr>)
      else if k = ''__proto__'' \<and> accessor_inherited (length h) h (proto t) then
        (case v of
           VObject r \<Rightarrow> store h target (t\<lparr>proto := ObjectRef r\<rparr>)
         | VNull \<Rightarrow> store h target (t\<lparr>proto := NullPrototype\<rparr>)
         | _ \<Rightarrow> h)
      else store h target (t\<lparr>props := set_prop (props t) k v\<rparr>))"

subsection \<open>sanitizeObject\<close>

text \<open>\<open>SanitizeObjectOptions\<close>: every option may be absent.\<close>

record SanitizeObjectOptions =
  removeUndefined :: "bool option"
  removeNull :: "bool option"
  removeEmptyString :: "bool option"
  removeZero :: "bool option"
  removeNaN :: "bool option"
  excludeKeys :: "string list option"
  includeKeys :: "string list option"

text \<open>
  The seven local constants the destructuring \<open>const { removeUndefined = true, ... } =
  options ?? {}\<close> binds.
\<close>

record sanitize_locals =
  rmUndefined :: bool
  rmNull :: bool
  rmEmptyString :: bool
  rmZero :: bool
  rmNaN :: bool
  exclKeys :: "string list"
  inclKeys :: "string list"

definition no_options :: SanitizeObjectOptions where
  "no_options =
     \<lparr>removeUndefined = None, removeNull = None, removeEmptyString = None,
      removeZero = None, removeNaN = None, excludeKeys = None, includeKeys = None\<rparr>"

definition destructure :: "SanitizeObjectOptions option \<Rightarrow> sanitize_locals" where
  "destructure options =
     (let opts = nullish options no_options
      in \<lparr>rmUndefined = nullish (removeUndefined opts) True,
          rmNull = nullish (removeNull opts) False,
          rmEmptyString = nullish (removeEmptyString opts) False,
          rmZero = nullish (removeZero opts) False,
          rmNaN = nullish (removeNaN opts) False,
          exclKeys = nullish (excludeKeys opts) [],
          inclKeys = nullish (includeKeys opts) []\<rparr>)"

text \<open>
  The body of the \<open>for (const key in obj)\<close> loop, over the keys still to visit;
  \<open>obj\<close> and \<open>result\<close> are references. A \<open>continue\<close> is the recursive call. (The
  loop also visits the enumerable keys \<open>obj\<close> inherits; the own-property test at
  the top of the body skips them, so the keys to visit are the own ones.)
\<close>

fun sanitize_loop ::
  "sanitize_locals \<Rightarrow> nat \<Rightarrow> nat \<Rightarrow> string list \<Rightarrow> heap \<Rightarrow> heap" where
  "sanitize_loop c obj result [] h = h"
| "sanitize_loop c obj result (k # ks) h =
     (if length (exclKeys c) > 0 \<and> k \<in> set (exclKeys c) then
        sanitize_loop c obj result ks
          (assign h result k (get_prop (props (deref h obj)) k))
      else if length (inclKeys c) > 0 \<and> k \<notin> set (inclKeys c) then
        sanitize_loop c obj result ks
          (assign h result k (get_prop (props (deref h obj)) k))
      else
        let v = get_prop (props (deref h obj)) k in
        if rmUndefined c \<and> v = VUndefined then sanitize_loop c obj result ks h
        else if rmNull c \<and> v = VNull then sanitize_loop c obj result ks h
        else if rmEmptyString c \<and> v = VString [] then sanitize_loop c obj result ks h
        else if rmZero c \<and> v = VNumber (Num 0) then sanitize_loop c obj result ks h
        else if rmNaN c \<and> v = VNumber NaN then sanitize_loop c obj result ks h
        else sanitize_loop c obj result ks (assign h result k v))"

text \<open>
  \<open>sanitizeObject(obj, options)\<close>: the heap after the call and the reference it
  returns.
\<close>

definition sanitizeObject ::
  "heap \<Rightarrow> nat \<Rightarrow> SanitizeObjectOptions option \<Rightarrow> heap \<times> nat" where
  "sanitizeObject h obj options =
     (let c = destructure options;
          (h1, result) = alloc h (plain [])
      in (sanitize_loop c obj result (own_keys (props (deref h1 obj))) h1, result))"

text \<open>
  The per-key rule in the specification's words: the removal predicates in their
  order, each with the flag that activates it; an entry is dropped when some active
  predicate matches it, unless its key is shielded by \<open>excludeKeys\<close> or lies outside
  a non-empty \<open>includeKeys\<close>.
\<close>

definition removal_predicates :: "sanitize_locals \<Rightarrow> (bool \<times> (js_value \<Rightarrow> bool)) list" where
  "removal_predicates c =
     [(rmUndefined c, \<lambda>v. v = VUndefined),
      (rmNull c, \<lambda>v. v = VNull),
      (rmEmptyString c, \<lambda>v. v = VString []),
      (rmZero c, \<lambda>v. v = VNumber (Num 0)),
      (rmNaN c, \<lambda>v. v = VNumber NaN)]"

definition entry_kept :: "sanitize_locals \<Rightarrow> string \<times> js_value \<Rightarrow> bool" where
  "entry_kept c e =
     (if fst e \<in> set (exclKeys c) then True
      else if inclKeys c \<noteq> [] \<and> fst e \<notin> set (inclKeys c) then True
      else find (\<lambda>p. fst p \<and> snd p (snd e)) (removal_predicates c) = None)"

subsection \<open>pick and omit\<close>

text \<open>\<open>for (const key of keys) if (hasOwnProperty(obj, key)) result[key] = obj[key]\<close>\<close>

fun pick_loop :: "nat \<Rightarrow> nat \<Rightarrow> string list \<Rightarrow> heap \<Rightarrow> heap" where
  "pick_loop obj result [] h = h"
| "pick_loop obj result (k # ks) h =
     pick_loop obj result ks
       (if has_own (props (deref h obj)) k
        then assign h result k (get_prop (props (deref h obj)) k)
        else h)"

definition pick :: "heap \<Rightarrow> nat \<Rightarrow> string list \<Rightarrow> heap \<times> nat" where
  "pick h obj keys =
     (let (h1, result) = alloc h (plain []) in (pick_loop obj result keys h1, result))"

text \<open>\<open>for (const key of keys) delete result[key]\<close>\<close>

fun omit_loop :: "nat \<Rightarrow> string list \<Rightarrow> heap \<Rightarrow> heap" where
  "omit_loop result [] h = h"
| "omit_loop result (k # ks) h =
     omit_loop result ks
       (store h result
          ((deref h result)\<lparr>props := delete_prop (props (deref h result)) k\<rparr>))"

text \<open>\<open>const result = { ...obj }\<close>, then the loop.\<close>

definition omit :: "heap \<Rightarrow> nat \<Rightarrow> string list \<Rightarrow> heap \<times> nat" where
  "omit h obj keys =
     (let (h1, result) = alloc h (plain (spread [] (props (deref h obj))))
      in (omit_loop result keys h1, result))"

text \<open>
  The object literal \<open>{ ...a, ...b }\<close>, and equality of two objects up to the order
  of their properties (nested objects are shared references here, so equal
  references are deeply equal).
\<close>

definition spread_merge :: "js_object \<Rightarrow> js_object \<Rightarrow> js_object" where
  "spread_merge a b = spread (spread [] a) b"

definition deep_equals :: "js_object \<Rightarrow> js_object \<Rightarrow> bool" where
  "deep_equals a b = (set a = set b)"

section \<open>URL utilities (src/utils)\<close>

text \<open>
  \<open>QueryParamValue = string | number | boolean | undefined | null\<close>: a scalar that
  has a \<open>toString\<close> method, or one of the two values that are skipped.
\<close>

datatype QueryScalar = QString string | QNumber js_number | QBoolean bool

datatype QueryParamValue = Defined QueryScalar | QUndefined | QNull

datatype QueryParam = Single QueryParamValue | Array "QueryParamValue list"

type_synonym QueryParamsObject = "(string \<times> QueryParam) list"

text \<open>\<open>value.toString()\<close>\<close>

fun toString :: "QueryScalar \<Rightarrow> string" where
  "toString (QString s) = s"
| "toString (QNumber n) = string_of_number n"
| "toString (QBoolean b) = (if b then ''true'' else ''false'')"

text \<open>
  \<open>if (item !== undefined && item !== null) searchParams.append(key, item.toString())\<close>:
  the pairs one value appends.
\<close>

fun append_value :: "string \<Rightarrow> QueryParamValue \<Rightarrow> (string \<times> string) list" where
  "append_value k (Defined v) = [(k, toString v)]"
| "append_value k QUndefined = []"
| "append_value k QNull = []"

text \<open>
  The pairs one entry of \<open>queryParams\<close> appends: an array appends its items in
  order, under the same key.
\<close>

fun append_entry :: "string \<times> QueryParam \<Rightarrow> (string \<times> string) list" where
  "append_entry (k, Single v) = append_value k v"
| "append_entry (k, Array vs) = concat (map (append_value k) vs)"

text \<open>
  \<open>URLSearchParams.toString()\<close> belongs to the platform: the percent-encoding of a
  name or a value is the parameter \<open>enc\<close>.
\<close>

definition buildQueryString :: "(string \<Rightarrow> string) \<Rightarrow> QueryParamsObject option \<Rightarrow> string" where
  "buildQueryString enc queryParams =
     (case queryParams of
        None \<Rightarrow> []
      | Some qp \<Rightarrow>
          join ''&'' (map (\<lambda>(k, v). enc k @ ''='' @ enc v) (concat (map append_entry qp))))"

datatype js_error = Error string

text \<open>
  \<open>generateUrl(path, queryParams?, baseUrl?)\<close>. The process environment is an
  ambient input of every function; it is the argument \<open>env\<close> (a map from variable
  names to values), which the body of \<open>generateUrl\<close> never reads. A \<open>throw\<close> is \<open>Inl\<close>.
\<close>

definition generateUrl ::
  "(string \<Rightarrow> string) \<Rightarrow> (string \<rightharpoonup> string) \<Rightarrow> string \<Rightarrow> QueryParamsObject option
     \<Rightarrow> string option \<Rightarrow> js_error + string" where
  "generateUrl enc env path queryParams baseUrl =
     (let base = nullish baseUrl [] in
      if base = [] then Inl (Error ''Base URL is required. Provide baseUrl parameter.'')
      else
        let queryString = buildQueryString enc queryParams;
            pathWithQuery = (if queryString \<noteq> [] then path @ ''?'' @ queryString else path)
        in Inr (base @ pathWithQuery))"

section \<open>Validation middleware\<close>

text \<open>
  One entry of a schema engine's error list: a path of string or numeric segments
  and a message.
\<close>

datatype path_segment = Key string | Index nat

type_synonym zod_issue = "path_segment list \<times> string"

record ValidationErrorItem =
  field :: string
  message :: string

text \<open>
  The class \<open>ValidationError\<close>: the constructor sets \<open>name\<close> and \<open>code\<close>, and
  \<open>statusCode\<close> defaults to 400.
\<close>

record ValidationError =
  error_name :: string
  error_message :: string
  statusCode :: int
  code :: string
  errors :: "ValidationErrorItem list"

definition new_ValidationError ::
  "string \<Rightarrow> ValidationErrorItem list option \<Rightarrow> int option \<Rightarrow> ValidationError" where
  "new_ValidationError msg errs status =
     \<lparr>error_name = ''ValidationError'', error_message = msg,
      statusCode = nullish status 400, code = ''VALIDATION_ERROR'',
      errors = nullish errs []\<rparr>"

fun segment_string :: "path_segment \<Rightarrow> string" where
  "segment_string (Key s) = s"
| "segment_string (Index n) = string_of_nat n"

definition parseZodError :: "zod_issue list \<Rightarrow> ValidationErrorItem list" where
  "parseZodError issues =
     map (\<lambda>err. \<lparr>field = join ''.'' (map segment_string (fst err)), message = snd err\<rparr>)
       issues"

text \<open>
  What a rejected \<open>schema.parseAsync\<close> throws: a value with an \<open>errors\<close> array (the
  engine's validation error), or anything else.
\<close>

datatype thrown = WithErrors "zod_issue list" | Other string

datatype parse_outcome = Resolved js_object | Rejected thrown

text \<open>
  The schema engine is external. A schema is what the middleware uses of it: its
  \<open>shape\<close> (an object whose keys are the declared sections) and its \<open>parseAsync\<close>,
  any function from the object to validate to an outcome.
\<close>

record Schema =
  shape :: js_object
  parseAsync :: "js_object \<Rightarrow> parse_outcome"

text \<open>The three fields of the framework's request that the middleware touches.\<close>

record Request =
  body :: js_value
  query :: js_value
  params :: js_value

text \<open>What the middleware passes to \<open>next\<close>.\<close>

datatype next_arg = NoArgument | PassValidationError ValidationError | PassThrown thrown

text \<open>The first half of the \<open>try\<close> block: the object handed to \<open>parseAsync\<close>.\<close>

definition dataToValidate :: "Schema \<Rightarrow> Request \<Rightarrow> js_object" where
  "dataToValidate schema req =
     (let d = [];
          d = (if truthy (get_prop (shape schema) ''body'')
               then set_prop d ''body'' (body req) else d);
          d = (if truthy (get_prop (shape schema) ''query'')
               then set_prop d ''query'' (query req) else d);
          d = (if truthy (get_prop (shape schema) ''params'')
               then set_prop d ''params'' (params req) else d)
      in d)"

text \<open>The second half: writing the validated sections back to the request.\<close>

definition write_back :: "js_object \<Rightarrow> Request \<Rightarrow> Request" where
  "write_back validated req =
     (let req = (if get_prop validated ''body'' \<noteq> VUndefined
                 then req\<lparr>body := get_prop validated ''body''\<rparr> else req);
          req = (if get_prop validated ''query'' \<noteq> VUndefined
                 then req\<lparr>query := get_prop validated ''query''\<rparr> else req);
          req = (if get_prop validated ''params'' \<noteq> VUndefined
                 then req\<lparr>params := get_prop validated ''params''\<rparr> else req)
      in req)"

text \<open>
  The middleware \<open>validateMiddleware(schema)\<close> applied to a request: the request as
  it leaves the middleware, and the argument of the one call of \<open>next\<close>.
\<close>

definition validateMiddleware :: "Schema \<Rightarrow> Request \<Rightarrow> Request \<times> next_arg" where
  "validateMiddleware schema req =
     (case parseAsync schema (dataToValidate schema req) of
        Resolved validated \<Rightarrow> (write_back validated req, NoArgument)
      | Rejected (WithErrors issues) \<Rightarrow>
          (let errs = parseZodError issues;
               msg = (case errs of [] \<Rightarrow> ''Validation failed'' | e # es \<Rightarrow> message e)
           in (req, PassValidationError (new_ValidationError msg (Some errs) None)))
      | Rejected (Other x) \<Rightarrow> (req, PassThrown (Other x)))"

text \<open>
  For stating what the middleware reads and writes: the request field that belongs
  to a section name, and the three section names.
\<close>

definition request_field :: "Request \<Rightarrow> string \<Rightarrow> js_value" where
  "request_field req s =
     (if s = ''body'' then body req else if s = ''query'' then query req else params req)"

definition sections :: "string list" where
  "sections = [''body'', ''query'', ''params'']"

section \<open>Properties of the pagination module\<close>

lemma push_while_le_eq: "push_while_le i hi pages = pages @ map Page [i..hi]"
proof (induction i hi pages rule: push_while_le.induct)
  case (1 i hi pages)
  show ?case
  proof (cases "i \<le> hi")
    case True
    have "push_while_le i hi pages = push_while_le (i + 1) hi (pages @ [Page i])"
      using True by (simp add: push_while_le.simps [of i hi pages])
    also have "\<dots> = (pages @ [Page i]) @ map Page [i + 1..hi]"
      using "1.IH" True by simp
    also have "\<dots> = pages @ map Page [i..hi]"
      using True by (simp add: upto_rec1)
    finally show ?thesis .
  next
    case False
    then show ?thesis by (simp add: push_while_le.simps [of i hi pages])
  qed
qed

lemma push_while_lt_eq: "push_while_lt i hi pages = pages @ map Page [i..hi - 1]"
proof (induction i hi pages rule: push_while_lt.induct)
  case (1 i hi pages)
  show ?case
  proof (cases "i < hi")
    case True
    have "push_while_lt i hi pages = push_while_lt (i + 1) hi (pages @ [Page i])"
      using True by (simp add: push_while_lt.simps [of i hi pages])
    also have "\<dots> = (pages @ [Page i]) @ map Page [i + 1..hi - 1]"
      using "1.IH" True by simp
    also have "\<dots> = pages @ map Page [i..hi - 1]"
      using True by (simp add: upto_rec1)
    finally show ?thesis .
  next
    case False
    then show ?thesis by (simp add: push_while_lt.simps [of i hi pages])
  qed
qed

lemma upt_nat_upto: "map (\<lambda>i. f (int i + 1)) [0..<nat n] = map f [1..n]"
proof (cases "1 \<le> n")
  case True
  then show ?thesis
  proof (induction "nat n" arbitrary: n)
    case 0 then show ?case by simp
  next
    case (Suc k)
    then have k: "k = nat (n - 1)" by simp
    show ?case
    proof (cases "1 \<le> n - 1")
      case True
      have "nat n = Suc (nat (n - 1))" using Suc by simp
      then have "map (\<lambda>i. f (int i + 1)) [0..<nat n]
         = map (\<lambda>i. f (int i + 1)) [0..<nat (n - 1)] @ [f n]"
        using Suc.prems by simp
      also have "\<dots> = map f [1..n - 1] @ [f n]" using Suc.hyps(1)[OF k True] by simp
      also have "\<dots> = map f [1..n]" using Suc.prems by (simp add: upto_rec2)
      finally show ?thesis .
    next
      case False
      with Suc.prems have "n = 1" by simp
      then show ?thesis by simp
    qed
  qed
next
  case False then show ?thesis by simp
qed

lemma array_from_length_eq: "array_from_length n = map Page [1..n]"
  unfolding array_from_length_def by (rule upt_nat_upto)

section \<open>Properties of objects\<close>



lemma map_of_set_prop: "map_of (set_prop r k v) = (map_of r)(k \<mapsto> v)"
  by (induction r) (auto simp: fun_eq_iff)

lemma keys_set_prop: "set (map fst (set_prop r k v)) = insert k (set (map fst r))"
  by (induction r) auto

lemma distinct_set_prop:
  "distinct (map fst r) \<Longrightarrow> distinct (map fst (set_prop r k v))"
proof (induction r)
  case Nil
  then show ?case by simp
next
  case (Cons p ps)
  have "fst p \<noteq> k \<Longrightarrow> fst p \<notin> set (map fst (set_prop ps k v))"
    using Cons.prems unfolding keys_set_prop by auto
  then show ?case using Cons by auto
qed

lemma set_prop_fresh: "k \<notin> set (map fst r) \<Longrightarrow> set_prop r k v = r @ [(k, v)]"
  by (induction r) auto

lemma get_prop_member:
  "distinct (map fst obj) \<Longrightarrow> (k, v) \<in> set obj \<Longrightarrow> get_prop obj k = v"
  by (simp add: get_prop_def)

lemma has_own_dom: "has_own obj k \<longleftrightarrow> k \<in> dom (map_of obj)"
  by (simp add: has_own_def dom_map_of_conv_image_fst)

lemma get_prop_Some: "map_of obj k = Some v \<Longrightarrow> get_prop obj k = v"
  by (simp add: get_prop_def)


subsection \<open>The store\<close>

lemma length_store: "length (store h r x) = length h"
  by (simp add: store_def)

lemma deref_store:
  "deref (store h r x) r' = (if r' = r \<and> r < length h then x else deref h r')"
  by (simp add: deref_def store_def)

lemma length_assign: "length (assign h t k v) = length h"
  by (simp add: assign_def Let_def length_store split: js_value.split)

lemma assign_frame: "r \<noteq> t \<Longrightarrow> deref (assign h t k v) r = deref h r"
  by (simp add: assign_def Let_def deref_store split: js_value.split)

lemma assign_ordinary:
  "k \<noteq> ''__proto__'' \<Longrightarrow> t < length h \<Longrightarrow>
   deref (assign h t k v) t = (deref h t)\<lparr>props := set_prop (props (deref h t)) k v\<rparr>"
  by (simp add: assign_def Let_def deref_store)

subsection \<open>sanitizeObject\<close>

lemma sanitize_step:
  "sanitize_loop c obj result (k # ks) h =
     sanitize_loop c obj result ks
       (if entry_kept c (k, get_prop (props (deref h obj)) k)
        then assign h result k (get_prop (props (deref h obj)) k) else h)"
  by (simp add: entry_kept_def removal_predicates_def Let_def)

lemma sanitize_loop_length: "length (sanitize_loop c obj result ks h) = length h"
  by (induction ks arbitrary: h) (simp_all add: sanitize_step length_assign del: sanitize_loop.simps(2))

lemma sanitize_loop_frame:
  "r \<noteq> result \<Longrightarrow> deref (sanitize_loop c obj result ks h) r = deref h r"
  by (induction ks arbitrary: h) (simp_all add: sanitize_step assign_frame del: sanitize_loop.simps(2))

lemma sanitize_loop_filter:
  assumes "result < length h" "obj \<noteq> result"
    and "props (deref h obj) = pre @ suf" "distinct (map fst (pre @ suf))"
    and "''__proto__'' \<notin> set (map fst suf)"
    and "deref h result = plain (filter (entry_kept c) pre)"
  shows "deref (sanitize_loop c obj result (map fst suf) h) result
           = plain (filter (entry_kept c) (pre @ suf))"
  using assms
proof (induction suf arbitrary: pre h)
  case Nil
  then show ?case by simp
next
  case (Cons e suf)
  obtain k v where e: "e = (k, v)" by (cases e)
  have k: "k \<noteq> ''__proto__''" using Cons.prems(5) e by auto
  have g: "get_prop (props (deref h obj)) k = v"
    unfolding Cons.prems(3) using Cons.prems(4) e by (intro get_prop_member) auto
  have fresh: "k \<notin> set (map fst (filter (entry_kept c) pre))"
    using Cons.prems(4) e by auto
  let ?h = "if entry_kept c (k, v) then assign h result k v else h"
  have len: "result < length ?h" using Cons.prems(1) by (simp add: length_assign)
  have o: "props (deref ?h obj) = (pre @ [e]) @ suf"
    using Cons.prems(2,3) by (simp add: assign_frame)
  have r: "deref ?h result = plain (filter (entry_kept c) (pre @ [e]))"
    using Cons.prems(1,6) k fresh e
    by (simp add: assign_ordinary set_prop_fresh plain_def)
  have d: "distinct (map fst ((pre @ [e]) @ suf))" using Cons.prems(4) by simp
  have p: "''__proto__'' \<notin> set (map fst suf)" using Cons.prems(5) by simp
  have "sanitize_loop c obj result (map fst (e # suf)) h
      = sanitize_loop c obj result (map fst suf) ?h"
    using e g by (simp add: sanitize_step del: sanitize_loop.simps(2))
  then show ?case
    using Cons.IH [OF len Cons.prems(2) o d p r] by simp
qed

lemma sanitizeObject_result:
  assumes "obj < length h" "distinct (map fst (props (deref h obj)))"
    and "\<not> has_own (props (deref h obj)) ''__proto__''"
    and "sanitizeObject h obj options = (h', result)"
  shows "deref h' result
           = plain (filter (entry_kept (destructure options)) (props (deref h obj)))"
    and "result = length h" and "length h' = Suc (length h)"
    and "\<forall>r < length h. deref h' r = deref h r"
proof -
  let ?h1 = "h @ [plain []]"
  let ?c = "destructure options"
  have res: "result = length h"
    and h': "h' = sanitize_loop ?c obj result (map fst (props (deref ?h1 obj))) ?h1"
    using assms(4) by (auto simp: sanitizeObject_def alloc_def own_keys_def Let_def)
  have old: "deref ?h1 r = deref h r" if "r < length h" for r
    using that by (simp add: deref_def nth_append)
  have new: "deref ?h1 result = plain (filter (entry_kept ?c) [])"
    by (simp add: deref_def res)
  have ne: "obj \<noteq> result" using assms(1) res by simp
  have len: "result < length ?h1" by (simp add: res)
  have o: "props (deref ?h1 obj) = [] @ props (deref h obj)"
    using old [OF assms(1)] by simp
  have d: "distinct (map fst ([] @ props (deref h obj)))" using assms(2) by simp
  have p: "''__proto__'' \<notin> set (map fst (props (deref h obj)))"
    using assms(3) by (simp add: has_own_def)
  show "result = length h" by fact
  show "length h' = Suc (length h)" by (simp add: h' sanitize_loop_length)
  show "\<forall>r < length h. deref h' r = deref h r"
    using old res by (simp add: h' sanitize_loop_frame)
  show "deref h' result = plain (filter (entry_kept ?c) (props (deref h obj)))"
    unfolding h' old [OF assms(1)]
    using sanitize_loop_filter [OF len ne o d p new] by simp
qed


subsection \<open>pick\<close>

lemma pick_loop_length: "length (pick_loop obj result ks h) = length h"
  by (induction ks arbitrary: h) (simp_all add: length_assign)

lemma pick_loop_frame:
  "r \<noteq> result \<Longrightarrow> deref (pick_loop obj result ks h) r = deref h r"
  by (induction ks arbitrary: h) (simp_all add: assign_frame)

lemma restrict_add_insert: "(m ++ (n |` {k})) ++ (n |` A) = m ++ (n |` insert k A)"
  by (auto simp: fun_eq_iff map_add_def restrict_map_def split: option.splits)

lemma pick_loop_result:
  assumes "obj \<noteq> result" "result < length h"
    and "\<forall>k \<in> set ks. has_own (props (deref h obj)) k \<longrightarrow> k \<noteq> ''__proto__''"
    and "distinct (map fst (props (deref h result)))"
  shows "map_of (props (deref (pick_loop obj result ks h) result)) =
           map_of (props (deref h result)) ++ (map_of (props (deref h obj)) |` set ks)
    \<and> distinct (map fst (props (deref (pick_loop obj result ks h) result)))
    \<and> proto (deref (pick_loop obj result ks h) result) = proto (deref h result)"
  using assms
proof (induction ks arbitrary: h)
  case Nil
  then show ?case by simp
next
  case (Cons k ks)
  let ?o = "props (deref h obj)"
  let ?h = "if has_own ?o k then assign h result k (get_prop ?o k) else h"
  have len: "result < length ?h" using Cons.prems(2) by (simp add: length_assign)
  have o: "deref ?h obj = deref h obj" using Cons.prems(1) by (simp add: assign_frame)
  have hyp: "\<forall>k \<in> set ks. has_own (props (deref ?h obj)) k \<longrightarrow> k \<noteq> ''__proto__''"
    unfolding o using Cons.prems(3) by simp
  have step: "map_of (props (deref ?h result))
        = map_of (props (deref h result)) ++ (map_of ?o |` {k})
      \<and> distinct (map fst (props (deref ?h result)))
      \<and> proto (deref ?h result) = proto (deref h result)"
  proof (cases "has_own ?o k")
    case True
    then have k: "k \<noteq> ''__proto__''" using Cons.prems(3) by simp
    obtain v where v: "map_of ?o k = Some v" using True unfolding has_own_dom by auto
    have a: "deref ?h result
        = (deref h result)\<lparr>props := set_prop (props (deref h result)) k v\<rparr>"
      using True k Cons.prems(2) v by (simp add: assign_ordinary get_prop_Some)
    show ?thesis
      unfolding a using v Cons.prems(4)
      by (auto simp: map_of_set_prop distinct_set_prop fun_eq_iff map_add_def
          restrict_map_def)
  next
    case False
    then have "map_of ?o k = None" unfolding has_own_dom by auto
    then show ?thesis using False Cons.prems(4)
      by (auto simp: fun_eq_iff map_add_def restrict_map_def split: option.splits)
  qed
  have s1: "map_of (props (deref ?h result))
        = map_of (props (deref h result)) ++ (map_of ?o |` {k})"
    and d: "distinct (map fst (props (deref ?h result)))"
    and s3: "proto (deref ?h result) = proto (deref h result)"
    using step by blast+
  note IH = Cons.IH [OF Cons.prems(1) len hyp d]
  have eq: "pick_loop obj result (k # ks) h = pick_loop obj result ks ?h" by simp
  have "map_of (props (deref ?h result)) ++ (map_of (props (deref ?h obj)) |` set ks)
      = map_of (props (deref h result)) ++ (map_of ?o |` set (k # ks))"
    unfolding o s1 by (simp add: restrict_add_insert)
  then show ?case unfolding eq using IH s3 by simp
qed

lemma entries_restrict:
  assumes "distinct (map fst p)" "distinct (map fst obj)"
    and "map_of p = map_of obj |` A"
  shows "set p = {e \<in> set obj. fst e \<in> A}"
proof -
  have "e \<in> set p \<longleftrightarrow> e \<in> set obj \<and> fst e \<in> A" for e
  proof -
    have "e \<in> set p \<longleftrightarrow> map_of p (fst e) = Some (snd e)"
      using assms(1) by (cases e) simp
    also have "\<dots> \<longleftrightarrow> fst e \<in> A \<and> map_of obj (fst e) = Some (snd e)"
      unfolding assms(3) by (simp add: restrict_map_def)
    also have "\<dots> \<longleftrightarrow> e \<in> set obj \<and> fst e \<in> A"
      using assms(2) by (cases e) auto
    finally show ?thesis .
  qed
  then show ?thesis by auto
qed


lemma pick_result:
  assumes "obj < length h" "distinct (map fst (props (deref h obj)))"
    and "\<forall>k \<in> set ks. has_own (props (deref h obj)) k \<longrightarrow> k \<noteq> ''__proto__''"
    and "pick h obj ks = (h', p)"
  shows "set (props (deref h' p)) = {e \<in> set (props (deref h obj)). fst e \<in> set ks}"
    and "distinct (map fst (props (deref h' p)))"
    and "p = length h" and "length h' = Suc (length h)"
    and "\<forall>r < length h. deref h' r = deref h r"
proof -
  let ?h1 = "h @ [plain []]"
  have p: "p = length h" and h': "h' = pick_loop obj p ks ?h1"
    using assms(4) by (auto simp: pick_def alloc_def)
  have ne: "obj \<noteq> p" using assms(1) p by simp
  have len: "p < length ?h1" by (simp add: p)
  have new: "deref ?h1 p = plain []" by (simp add: deref_def p)
  have old: "deref ?h1 r = deref h r" if "r < length h" for r
    using that by (simp add: deref_def nth_append)
  have hyp: "\<forall>k \<in> set ks. has_own (props (deref ?h1 obj)) k \<longrightarrow> k \<noteq> ''__proto__''"
    unfolding old [OF assms(1)] by (rule assms(3))
  have d0: "distinct (map fst (props (deref ?h1 p)))" unfolding new by (simp add: plain_def)
  note R = pick_loop_result [OF ne len hyp d0]
  show "p = length h" by fact
  show "length h' = Suc (length h)" by (simp add: h' pick_loop_length)
  show d: "distinct (map fst (props (deref h' p)))" unfolding h' using R by simp
  show "\<forall>r < length h. deref h' r = deref h r"
    using old p by (simp add: h' pick_loop_frame)
  have "map_of (props (deref h' p)) = map_of (props (deref h obj)) |` set ks"
    unfolding h' using R unfolding new old [OF assms(1)] by (simp add: plain_def)
  then show "set (props (deref h' p)) = {e \<in> set (props (deref h obj)). fst e \<in> set ks}"
    using d assms(2) by (intro entries_restrict)
qed

subsection \<open>omit and the spread\<close>

lemma spread_fresh:
  "distinct (map fst (t @ s)) \<Longrightarrow> spread t s = t @ s"
proof (induction s arbitrary: t)
  case Nil
  then show ?case by simp
next
  case (Cons e s)
  have "set_prop t (fst e) (snd e) = t @ [e]"
    using Cons.prems by (simp add: set_prop_fresh)
  moreover have "distinct (map fst ((t @ [e]) @ s))" using Cons.prems by simp
  ultimately show ?case using Cons.IH [of "t @ [e]"] by simp
qed

lemma omit_loop_length: "length (omit_loop result ks h) = length h"
  by (induction ks arbitrary: h) (simp_all add: length_store)

lemma omit_loop_frame:
  "r \<noteq> result \<Longrightarrow> deref (omit_loop result ks h) r = deref h r"
  by (induction ks arbitrary: h) (simp_all add: deref_store)

lemma omit_loop_result:
  "result < length h \<Longrightarrow>
   deref (omit_loop result ks h) result
     = (deref h result)\<lparr>props := filter (\<lambda>e. fst e \<notin> set ks) (props (deref h result))\<rparr>"
proof (induction ks arbitrary: h)
  case Nil
  then show ?case by simp
next
  case (Cons k ks)
  let ?h = "store h result ((deref h result)\<lparr>props := delete_prop (props (deref h result)) k\<rparr>)"
  have "result < length ?h" using Cons.prems by (simp add: length_store)
  from Cons.IH [OF this] show ?case using Cons.prems
    by (simp add: deref_store delete_prop_def conj_commute)
qed

lemma omit_result:
  assumes "obj < length h" "distinct (map fst (props (deref h obj)))"
    and "omit h obj ks = (h', q)"
  shows "deref h' q = plain (filter (\<lambda>e. fst e \<notin> set ks) (props (deref h obj)))"
    and "q = length h" and "length h' = Suc (length h)"
    and "\<forall>r < length h. deref h' r = deref h r"
proof -
  let ?h1 = "h @ [plain (spread [] (props (deref h obj)))]"
  have q: "q = length h" and h': "h' = omit_loop q ks ?h1"
    using assms(3) by (auto simp: omit_def alloc_def)
  have new: "deref ?h1 q = plain (props (deref h obj))"
    using assms(2) by (simp add: deref_def q spread_fresh)
  have old: "deref ?h1 r = deref h r" if "r < length h" for r
    using that by (simp add: deref_def nth_append)
  show "q = length h" by fact
  show "length h' = Suc (length h)" by (simp add: h' omit_loop_length)
  show "\<forall>r < length h. deref h' r = deref h r"
    using old q by (simp add: h' omit_loop_frame)
  have "q < length ?h1" by (simp add: q)
  from omit_loop_result [OF this]
  show "deref h' q = plain (filter (\<lambda>e. fst e \<notin> set ks) (props (deref h obj)))"
    unfolding h' new by (simp add: plain_def)
qed

lemma distinct_spread:
  "distinct (map fst t) \<Longrightarrow> distinct (map fst (spread t s))"
  by (induction s arbitrary: t) (simp_all add: distinct_set_prop)

lemma map_of_spread:
  "distinct (map fst s) \<Longrightarrow> map_of (spread t s) = map_of t ++ map_of s"
proof (induction s arbitrary: t)
  case Nil
  then show ?case by simp
next
  case (Cons e s)
  have "fst e \<notin> dom (map_of s)" using Cons.prems by (simp add: dom_map_of_conv_image_fst)
  then have n: "map_of s (fst e) = None" by auto
  have "map_of (spread t (e # s)) = (map_of t)(fst e \<mapsto> snd e) ++ map_of s"
    using Cons by (simp add: map_of_set_prop)
  also have "\<dots> = map_of t ++ map_of (e # s)"
    using n by (auto simp: fun_eq_iff map_add_def split: option.splits)
  finally show ?case .
qed

lemma merge_complement:
  assumes "distinct (map fst obj)" "distinct (map fst a)" "distinct (map fst b)"
    and "set a = {e \<in> set obj. fst e \<in> A}" "set b = {e \<in> set obj. fst e \<notin> A}"
  shows "deep_equals (spread_merge a b) obj"
proof -
  have d: "distinct (map fst (spread_merge a b))"
    unfolding spread_merge_def by (intro distinct_spread) simp
  have m: "map_of (spread_merge a b) = map_of a ++ map_of b"
    unfolding spread_merge_def using assms(2,3) by (simp add: map_of_spread)
  have "map_of a ++ map_of b = map_of obj"
  proof
    fix k
    show "(map_of a ++ map_of b) k = map_of obj k"
    proof (cases "map_of obj k")
      case None
      then have "\<forall>v. (k, v) \<notin> set obj" using assms(1) by (metis map_of_eq_Some_iff option.distinct(1))
      then have "map_of a k = None" "map_of b k = None"
        using assms(4,5) by (auto simp: map_of_eq_None_iff image_iff)
      then show ?thesis using None by (simp add: map_add_def)
    next
      case (Some v)
      then have kv: "(k, v) \<in> set obj" using assms(1) by simp
      show ?thesis
      proof (cases "k \<in> A")
        case True
        then have "(k, v) \<in> set a" "\<forall>w. (k, w) \<notin> set b" using kv assms(4,5) by auto
        then have "map_of a k = Some v" "map_of b k = None"
          using assms(2) by (auto simp: map_of_eq_None_iff image_iff)
        then show ?thesis using Some by (simp add: map_add_def)
      next
        case False
        then have "(k, v) \<in> set b" using kv assms(5) by auto
        then have "map_of b k = Some v" using assms(3) by simp
        then show ?thesis using Some by (simp add: map_add_def)
      qed
    qed
  qed
  then have "map_of (spread_merge a b) = map_of obj" using m by simp
  then show ?thesis
    unfolding deep_equals_def using d assms(1) by (simp add: map_of_inject_set)
qed


section \<open>The page-number sequence\<close>

lemma generatePageNumbers_eq_formula:
  "generatePageNumbers cur tot mv = page_numbers_formula cur tot (maxVisible_default mv)"
  by (simp add: generatePageNumbers_def page_numbers_formula_def Let_def
      push_while_le_eq push_while_lt_eq array_from_length_eq)

lemma filter_is_page_map: "filter is_page (map Page xs) = map Page xs"
  by (induction xs) simp_all

text \<open>
  Claim C1, as amended. For \<open>1 \<le> currentPage \<le> totalPages\<close> and \<open>maxVisible \<ge> 5\<close>
  (5 when the argument is absent) the sequence contains page 1 and page
  \<open>totalPages\<close>, and it holds at most \<open>maxVisible\<close> page numbers. Counted with its
  ellipsis markers it has at most \<open>maxVisible + 2\<close> entries, and at most \<open>maxVisible\<close>
  in every branch but the middle one, which adds two markers around a window of
  \<open>2 * halfVisible + 1\<close> pages.
\<close>

theorem generatePageNumbers_first_last_bounded:
  assumes "1 \<le> cur" "cur \<le> tot" "5 \<le> maxVisible_default mv"
  shows "Page 1 \<in> set (generatePageNumbers cur tot mv)
    \<and> Page tot \<in> set (generatePageNumbers cur tot mv)
    \<and> int (length (filter is_page (generatePageNumbers cur tot mv))) \<le> maxVisible_default mv
    \<and> int (length (generatePageNumbers cur tot mv)) \<le> maxVisible_default mv + 2
    \<and> (tot \<le> maxVisible_default mv
        \<or> cur \<le> (maxVisible_default mv - 3) div 2 + 2
        \<or> cur \<ge> tot - (maxVisible_default mv - 3) div 2 - 1
       \<longrightarrow> int (length (generatePageNumbers cur tot mv)) \<le> maxVisible_default mv)"
proof -
  define m where "m = maxVisible_default mv"
  define hv where "hv = (m - 3) div 2"
  have hv: "0 \<le> hv" "2 * hv \<le> m - 3" using assms(3) unfolding hv_def m_def by auto
  have tot1: "1 \<le> tot" using assms by simp
  show ?thesis
    unfolding generatePageNumbers_eq_formula page_numbers_formula_def Let_def
      m_def [symmetric] hv_def [symmetric]
    using assms hv tot1 unfolding m_def [symmetric]
    by (auto simp: filter_is_page_map)
qed

text \<open>The amended claim C1 at \<open>generatePageNumbers(7, 20)\<close>, a middle window.\<close>

theorem generatePageNumbers_first_last_bounded_witness:
  "(1::int) \<le> 7 \<and> (7::int) \<le> 20 \<and> (5::int) \<le> maxVisible_default None
   \<and> Page 1 \<in> set (generatePageNumbers 7 20 None)
   \<and> Page 20 \<in> set (generatePageNumbers 7 20 None)
   \<and> int (length (filter is_page (generatePageNumbers 7 20 None))) \<le> 5
   \<and> int (length (generatePageNumbers 7 20 None)) \<le> 5 + 2"
proof -
  have h: "(1::int) \<le> 7" "(7::int) \<le> 20" "(5::int) \<le> maxVisible_default None"
    by (simp_all add: maxVisible_default_def nullish_def)
  have m: "maxVisible_default None = 5" by (simp add: maxVisible_default_def nullish_def)
  show ?thesis
    using generatePageNumbers_first_last_bounded [OF h] h unfolding m by simp
qed

text \<open>
  Claim C1 as it was stated fails: \<open>generatePageNumbers(5, 10, 5)\<close> meets the
  hypotheses and has seven entries, two more than \<open>maxVisible\<close>.
\<close>

theorem generatePageNumbers_length_counterexample:
  "(1::int) \<le> 5 \<and> (5::int) \<le> 10 \<and> (5::int) \<le> maxVisible_default (Some 5)
   \<and> generatePageNumbers 5 10 (Some 5)
       = [Page 1, Ellipsis, Page 4, Page 5, Page 6, Ellipsis, Page 10]
   \<and> \<not> int (length (generatePageNumbers 5 10 (Some 5))) \<le> maxVisible_default (Some 5)"
  by (simp add: generatePageNumbers_eq_formula page_numbers_formula_def
      maxVisible_default_def nullish_def)

text \<open>
  Claim C2. \<open>generatePageNumbers\<close> returns the sequence of the specification's
  branch formulas, for every input, with \<open>maxVisible = 5\<close> when the argument is
  absent. \<open>generatePageNumbers(1, 10, 5)\<close> and \<open>generatePageNumbers(10, 10, 5)\<close>
  contain page 1, page 10 and exactly one ellipsis marker, and
  \<open>generatePageNumbers(5, 5, 5)\<close> is \<open>[1, 2, 3, 4, 5]\<close>.
\<close>

theorem generatePageNumbers_branch_formulas:
  "generatePageNumbers cur tot mv = page_numbers_formula cur tot (maxVisible_default mv)
   \<and> maxVisible_default None = 5
   \<and> generatePageNumbers 1 10 (Some 5) = [Page 1, Page 2, Page 3, Ellipsis, Page 10]
   \<and> generatePageNumbers 10 10 (Some 5) = [Page 1, Ellipsis, Page 8, Page 9, Page 10]
   \<and> generatePageNumbers 5 5 (Some 5) = [Page 1, Page 2, Page 3, Page 4, Page 5]"
  by (simp add: generatePageNumbers_eq_formula page_numbers_formula_def
      maxVisible_default_def nullish_def upto_rec1)

text \<open>Claim C2 at \<open>generatePageNumbers(6, 12, 7)\<close>, a middle window of five pages.\<close>

theorem generatePageNumbers_branch_formulas_witness:
  "generatePageNumbers 6 12 (Some 7)
     = [Page 1, Ellipsis, Page 4, Page 5, Page 6, Page 7, Page 8, Ellipsis, Page 12]"
  using generatePageNumbers_branch_formulas [of 6 12 "Some 7"]
  by (simp add: page_numbers_formula_def maxVisible_default_def nullish_def)

section \<open>Pagination parameters and metadata\<close>

lemma js_le_refl_iff: "js_le a a \<longleftrightarrow> a \<noteq> NaN"
  by (cases a) simp_all

lemma js_le_trans: "js_le a b \<Longrightarrow> js_le b c \<Longrightarrow> js_le a c"
  by (cases a; cases b; cases c) simp_all

lemma js_le_total: "a \<noteq> NaN \<Longrightarrow> b \<noteq> NaN \<Longrightarrow> js_le a b \<or> js_le b a"
  by (cases a; cases b) auto

lemma js_le_NaN: "js_le a b \<Longrightarrow> a \<noteq> NaN \<and> b \<noteq> NaN"
  by (cases a; cases b) simp_all

lemma clamp_in_range:
  assumes "js_le lo hi" "x \<noteq> NaN"
  shows "js_le lo (math_min (math_max x lo) hi)" "js_le (math_min (math_max x lo) hi) hi"
proof -
  have n: "lo \<noteq> NaN" "hi \<noteq> NaN" using js_le_NaN [OF assms(1)] by simp_all
  have m: "math_max x lo \<noteq> NaN" "js_le lo (math_max x lo)"
    using assms(2) n js_le_total [of x lo] by (auto simp: math_max_def js_le_refl_iff)
  show "js_le lo (math_min (math_max x lo) hi)"
    using m n assms(1) by (auto simp: math_min_def)
  show "js_le (math_min (math_max x lo) hi) hi"
    using m n js_le_total [of "math_max x lo" hi] by (auto simp: math_min_def js_le_refl_iff)
qed

text \<open>
  What \<open>generateWhereClause\<close> does for a limit that is a number: under a merged
  configuration with \<open>minLimit <= defaultLimit <= maxLimit\<close> (so none of the three
  is \<open>undefined\<close> or \<open>NaN\<close>), a \<open>query.limit\<close> that is absent, finite or infinite
  gives a limit between \<open>minLimit\<close> and \<open>maxLimit\<close>.
\<close>

lemma generateWhereClause_clamps:
  assumes "js_le (to_number (minLimit (mergeConfig config)))
                 (to_number (defaultLimit (mergeConfig config)))"
    and "js_le (to_number (defaultLimit (mergeConfig config)))
               (to_number (maxLimit (mergeConfig config)))"
    and "limit q \<noteq> Some NaN"
  shows "js_le (to_number (minLimit (mergeConfig config)))
           (res_limit (generateWhereClause q defaultSort defaultWhere config))
    \<and> js_le (res_limit (generateWhereClause q defaultSort defaultWhere config))
           (to_number (maxLimit (mergeConfig config)))"
proof -
  let ?c = "mergeConfig config"
  have lohi: "js_le (to_number (minLimit ?c)) (to_number (maxLimit ?c))"
    using assms(1,2) by (rule js_le_trans)
  have d: "to_number (defaultLimit ?c) \<noteq> NaN" using js_le_NaN [OF assms(2)] by simp
  have x: "to_number (coalesce (limit q) (defaultLimit ?c)) \<noteq> NaN"
    using assms(3) d by (cases "limit q") (auto simp: coalesce_def to_number_def)
  show ?thesis
    using clamp_in_range [OF lohi x] by (simp add: generateWhereClause_def Let_def)
qed

text \<open>
  Claim C4. The claim says that every \<open>query.limit\<close> ends between \<open>minLimit\<close> and
  \<open>maxLimit\<close>. The code clamps with \<open>Math.min(Math.max(x, minLimit), maxLimit)\<close>,
  and both functions return \<open>NaN\<close> for a \<open>NaN\<close> argument: under the default
  configuration, and under one whose \<open>maxLimit\<close> is 50, the query
  \<open>{limit: NaN}\<close> gives \<open>limit = NaN\<close> and \<open>skip = NaN\<close>, which is neither at least
  \<open>minLimit\<close> nor at most \<open>maxLimit\<close>. The same configurations clamp a limit of
  500 to 100 and to 50.
\<close>

theorem generateWhereClause_limit_NaN:
  "js_le (to_number (minLimit (mergeConfig None))) (to_number (defaultLimit (mergeConfig None)))
   \<and> js_le (to_number (defaultLimit (mergeConfig None)))
        (to_number (maxLimit (mergeConfig None)))
   \<and> res_limit (generateWhereClause
        \<lparr>page = None, limit = Some NaN, search = None, sortBy = None, sortOrder = None\<rparr>
        \<lparr>key = ''createdAt'', val = Desc\<rparr> () None) = NaN
   \<and> res_skip (generateWhereClause
        \<lparr>page = None, limit = Some NaN, search = None, sortBy = None, sortOrder = None\<rparr>
        \<lparr>key = ''createdAt'', val = Desc\<rparr> () None) = NaN
   \<and> \<not> js_le (to_number (minLimit (mergeConfig None)))
        (res_limit (generateWhereClause
          \<lparr>page = None, limit = Some NaN, search = None, sortBy = None, sortOrder = None\<rparr>
          \<lparr>key = ''createdAt'', val = Desc\<rparr> () None))
   \<and> \<not> js_le
        (res_limit (generateWhereClause
          \<lparr>page = None, limit = Some NaN, search = None, sortBy = None, sortOrder = None\<rparr>
          \<lparr>key = ''createdAt'', val = Desc\<rparr> () None))
        (to_number (maxLimit (mergeConfig None)))
   \<and> res_limit (generateWhereClause
        \<lparr>page = None, limit = Some NaN, search = None, sortBy = None, sortOrder = None\<rparr>
        \<lparr>key = ''createdAt'', val = Desc\<rparr> ()
        (Some \<lparr>defaultLimit = Absent, maxLimit = Present (Some (Num 50)),
           minLimit = Absent, defaultPage = Absent\<rparr>)) = NaN
   \<and> res_limit (generateWhereClause
        \<lparr>page = None, limit = Some (Num 500), search = None, sortBy = None,
         sortOrder = None\<rparr>
        \<lparr>key = ''createdAt'', val = Desc\<rparr> () None) = Num 100
   \<and> res_limit (generateWhereClause
        \<lparr>page = None, limit = Some (Num 500), search = None, sortBy = None,
         sortOrder = None\<rparr>
        \<lparr>key = ''createdAt'', val = Desc\<rparr> ()
        (Some \<lparr>defaultLimit = Absent, maxLimit = Present (Some (Num 50)),
           minLimit = Absent, defaultPage = Absent\<rparr>)) = Num 50"
  by (simp add: generateWhereClause_def mergeConfig_def DEFAULT_PAGINATION_CONFIG_def
      spread_field_def coalesce_def to_number_def math_max_def math_min_def Let_def)

text \<open>
  The merged configuration, field by field, and two more runs of the clamp: a
  field that \<open>config\<close> holds with the value \<open>undefined\<close> replaces the default, and
  the limit is then \<open>NaN\<close>; a page of 0 becomes 1 and a limit of -3 becomes 1.
\<close>

lemma mergeConfig_fields:
  "mergeConfig None =
     \<lparr>defaultLimit = Some (Num 20), maxLimit = Some (Num 100), minLimit = Some (Num 1),
      defaultPage = Some (Num 1)\<rparr>"
  "defaultLimit (mergeConfig (Some c)) = (case defaultLimit c of Absent \<Rightarrow> Some (Num 20) | Present v \<Rightarrow> v)"
  "maxLimit (mergeConfig (Some c)) = (case maxLimit c of Absent \<Rightarrow> Some (Num 100) | Present v \<Rightarrow> v)"
  "minLimit (mergeConfig (Some c)) = (case minLimit c of Absent \<Rightarrow> Some (Num 1) | Present v \<Rightarrow> v)"
  "defaultPage (mergeConfig (Some c)) = (case defaultPage c of Absent \<Rightarrow> Some (Num 1) | Present v \<Rightarrow> v)"
  by (simp_all add: mergeConfig_def DEFAULT_PAGINATION_CONFIG_def spread_field_def)

lemma generateWhereClause_runs:
  "res_limit (generateWhereClause
      \<lparr>page = None, limit = Some (Num 5), search = None, sortBy = None, sortOrder = None\<rparr>
      \<lparr>key = ''createdAt'', val = Desc\<rparr> ()
      (Some \<lparr>defaultLimit = Absent, maxLimit = Absent, minLimit = Present None,
         defaultPage = Absent\<rparr>)) = NaN"
  "generateWhereClause
      \<lparr>page = Some (Num 0), limit = Some (Num (- 3)), search = None, sortBy = None,
       sortOrder = None\<rparr>
      \<lparr>key = ''createdAt'', val = Desc\<rparr> () None
   = \<lparr>res_where = (), res_orderBy = [''createdAt'' \<mapsto> Desc], res_page = Num 1,
      res_skip = Num 0, res_limit = Num 1\<rparr>"
  "generateWhereClause
      \<lparr>page = Some (Num 2), limit = Some (Num 10), search = None, sortBy = Some ''name'',
       sortOrder = Some Asc\<rparr>
      \<lparr>key = ''createdAt'', val = Desc\<rparr> () None
   = \<lparr>res_where = (), res_orderBy = [''name'' \<mapsto> Asc], res_page = Num 2,
      res_skip = Num 10, res_limit = Num 10\<rparr>"
  by (simp_all add: generateWhereClause_def mergeConfig_def DEFAULT_PAGINATION_CONFIG_def
      spread_field_def coalesce_def to_number_def math_max_def math_min_def Let_def
      truthy_string_def truthy_direction_def orderBy_assigned_def)

text \<open>
  Claim C5. For \<open>total \<ge> 0\<close>, \<open>page \<ge> 1\<close> and \<open>limit \<ge> 1\<close>, \<open>generatePagination\<close>
  returns \<open>total\<close>, \<open>currentPage = page\<close>, \<open>pageSize = limit\<close>,
  \<open>totalPages = max(ceil(total / limit), 1)\<close>, \<open>hasNextPage = page < totalPages\<close> and
  \<open>hasPreviousPage = page > 1\<close>; \<open>totalPages\<close> is at least 1, and it is 1 when
  \<open>total = 0\<close>.
\<close>

theorem generatePagination_metadata:
  assumes "0 \<le> tot" "1 \<le> pg" "1 \<le> lmt"
  shows "generatePagination tot pg lmt =
      \<lparr>total = tot, currentPage = pg, pageSize = lmt,
       totalPages = Num (max \<lceil>real_of_int tot / real_of_int lmt\<rceil> 1),
       hasNextPage = (pg < max \<lceil>real_of_int tot / real_of_int lmt\<rceil> 1),
       hasPreviousPage = (pg > 1)\<rparr>
    \<and> (\<exists>n. totalPages (generatePagination tot pg lmt) = Num n \<and> 1 \<le> n)
    \<and> (tot = 0 \<longrightarrow> totalPages (generatePagination tot pg lmt) = Num 1)"
proof -
  define c where "c = \<lceil>real_of_int tot / real_of_int lmt\<rceil>"
  have "0 \<le> real_of_int tot / real_of_int lmt" using assms by simp
  then have c0: "0 \<le> c" unfolding c_def by linarith
  have cd: "ceil_div tot lmt = Num c" using assms by (simp add: ceil_div_def c_def)
  have o: "or_one (Num c) = Num (max c 1)" using c0 by (simp add: max_def)
  have l: "int_less pg (Num (max c 1)) = (pg < max c 1)" by simp
  have z: "tot = 0 \<Longrightarrow> max c 1 = 1" unfolding c_def by simp
  show ?thesis
    unfolding generatePagination_def Let_def cd o l c_def [symmetric] using z by simp
qed

text \<open>
  Claim C5 at \<open>{total: 150, page: 3, limit: 20}\<close> (eight pages) and at an empty
  result set (one page).
\<close>

theorem generatePagination_metadata_witness:
  "(0::int) \<le> 150 \<and> (1::int) \<le> 3 \<and> (1::int) \<le> 20
   \<and> generatePagination 150 3 20 =
      \<lparr>total = 150, currentPage = 3, pageSize = 20, totalPages = Num 8,
       hasNextPage = True, hasPreviousPage = True\<rparr>
   \<and> totalPages (generatePagination 0 1 20) = Num 1"
proof -
  have h: "(0::int) \<le> 150" "(1::int) \<le> 3" "(1::int) \<le> 20" by simp_all
  have h0: "(0::int) \<le> 0" "(1::int) \<le> 1" "(1::int) \<le> 20" by simp_all
  show ?thesis
    using generatePagination_metadata [OF h] generatePagination_metadata [OF h0] by simp
qed

text \<open>
  Claim C6, as amended. \<open>generateWhereClause\<close> returns
  \<open>orderBy = {query.sortBy: query.sortOrder}\<close> whenever \<open>sortBy\<close> is present, is not
  the empty string and is not \<open>"__proto__"\<close>, and \<open>sortOrder\<close> is present; when
  one of the two is absent or \<open>sortBy\<close> is the empty string it returns
  \<open>{defaultSort.key: defaultSort.value}\<close>, provided \<open>defaultSort.key\<close> is not
  \<open>"__proto__"\<close>. The result has one entry either way: the two sorts are never
  merged.
\<close>

theorem generateWhereClause_orderBy:
  "(\<forall>k d. sortBy q = Some k \<and> k \<noteq> [] \<and> k \<noteq> ''__proto__'' \<and> sortOrder q = Some d \<longrightarrow>
      res_orderBy (generateWhereClause q defaultSort defaultWhere config) = [k \<mapsto> d])
   \<and> ((sortBy q = None \<or> sortBy q = Some [] \<or> sortOrder q = None)
        \<and> key defaultSort \<noteq> ''__proto__'' \<longrightarrow>
      res_orderBy (generateWhereClause q defaultSort defaultWhere config)
        = [key defaultSort \<mapsto> val defaultSort])"
  by (auto simp: generateWhereClause_def Let_def truthy_string_def truthy_direction_def
      orderBy_assigned_def)

text \<open>
  The amended claim C6 at the query \<open>{page: 2, limit: 10, sortBy: "name",
  sortOrder: "asc"}\<close> with the default sort \<open>{createdAt: "desc"}\<close>, and at the same
  query without its \<open>sortOrder\<close>.
\<close>

theorem generateWhereClause_orderBy_witness:
  "res_orderBy (generateWhereClause
      \<lparr>page = Some (Num 2), limit = Some (Num 10), search = None, sortBy = Some ''name'',
       sortOrder = Some Asc\<rparr>
      \<lparr>key = ''createdAt'', val = Desc\<rparr> () None) = [''name'' \<mapsto> Asc]
   \<and> res_orderBy (generateWhereClause
      \<lparr>page = Some (Num 2), limit = Some (Num 10), search = None, sortBy = Some ''name'',
       sortOrder = None\<rparr>
      \<lparr>key = ''createdAt'', val = Desc\<rparr> () None) = [''createdAt'' \<mapsto> Desc]"
  using
    generateWhereClause_orderBy [of "\<lparr>page = Some (Num 2), limit = Some (Num 10),
       search = None, sortBy = Some ''name'', sortOrder = Some Asc\<rparr>"
       "\<lparr>key = ''createdAt'', val = Desc\<rparr>" "()" None]
    generateWhereClause_orderBy [of "\<lparr>page = Some (Num 2), limit = Some (Num 10),
       search = None, sortBy = Some ''name'', sortOrder = None\<rparr>"
       "\<lparr>key = ''createdAt'', val = Desc\<rparr>" "()" None]
  by simp

text \<open>
  Claim C6 as it was stated fails: with \<open>sortBy: ""\<close> and \<open>sortOrder: "asc"\<close> both
  are present, and the result is the default sort, not \<open>{"": "asc"}\<close>.
\<close>

theorem generateWhereClause_orderBy_counterexample:
  "sortBy \<lparr>page = None, limit = None, search = None, sortBy = Some [],
       sortOrder = Some Asc\<rparr> = Some []
   \<and> sortOrder \<lparr>page = None, limit = None, search = None, sortBy = Some [],
       sortOrder = Some Asc\<rparr> = Some Asc
   \<and> res_orderBy (generateWhereClause
        \<lparr>page = None, limit = None, search = None, sortBy = Some [], sortOrder = Some Asc\<rparr>
        \<lparr>key = ''createdAt'', val = Desc\<rparr> () None)
      = [''createdAt'' \<mapsto> Desc]
   \<and> res_orderBy (generateWhereClause
        \<lparr>page = None, limit = None, search = None, sortBy = Some [], sortOrder = Some Asc\<rparr>
        \<lparr>key = ''createdAt'', val = Desc\<rparr> () None)
      \<noteq> [[] \<mapsto> Asc]"
proof -
  have "[''createdAt'' \<mapsto> Desc] \<noteq> [[] \<mapsto> Asc]"
  proof
    assume "[''createdAt'' \<mapsto> Desc] = [[] \<mapsto> Asc]"
    then have "[''createdAt'' \<mapsto> Desc] [] = [[] \<mapsto> Asc] []" by simp
    then show False by simp
  qed
  then show ?thesis
    by (simp add: generateWhereClause_def Let_def truthy_string_def truthy_direction_def
        orderBy_assigned_def)
qed

text \<open>
  The key \<open>__proto__\<close>, which the amended claim leaves out: the assignment reaches
  the setter of \<open>Object.prototype\<close> and \<open>orderBy\<close> stays empty, for the query sort
  and for the default sort alike.
\<close>

lemma generateWhereClause_orderBy_proto:
  "sortBy q = Some ''__proto__'' \<Longrightarrow> sortOrder q = Some d \<Longrightarrow>
     res_orderBy (generateWhereClause q defaultSort defaultWhere config) = Map.empty"
  "sortBy q = None \<Longrightarrow> key defaultSort = ''__proto__'' \<Longrightarrow>
     res_orderBy (generateWhereClause q defaultSort defaultWhere config) = Map.empty"
  by (simp_all add: generateWhereClause_def Let_def truthy_string_def truthy_direction_def
      orderBy_assigned_def)

section \<open>URL construction\<close>

text \<open>
  Claim C3. The claim says that \<open>generateUrl\<close> fails only when neither the
  \<open>baseUrl\<close> argument nor the environment gives a base URL, as the function's own
  documentation does (\<open>baseUrl\<close> "defaults to process.env.API_URL"). The function
  does otherwise: without a \<open>baseUrl\<close> argument, or with an empty one, it throws
  whatever the environment holds, also when \<open>API_URL\<close> is set; with a non-empty
  \<open>baseUrl\<close> it succeeds.
\<close>

theorem generateUrl_requires_baseUrl_argument:
  "generateUrl enc env path queryParams None
     = Inl (Error ''Base URL is required. Provide baseUrl parameter.'')
   \<and> generateUrl enc env path queryParams (Some [])
     = Inl (Error ''Base URL is required. Provide baseUrl parameter.'')
   \<and> generateUrl enc [''API_URL'' \<mapsto> ''https://api.example.com''] ''/users'' None None
     = Inl (Error ''Base URL is required. Provide baseUrl parameter.'')
   \<and> generateUrl enc env ''/users'' None (Some ''https://api.example.com'')
     = Inr ''https://api.example.com/users''"
  by (simp add: generateUrl_def nullish_def buildQueryString_def)

section \<open>Filtering and projecting objects\<close>

text \<open>
  What \<open>sanitizeObject\<close> does for an object that does not own the key
  \<open>__proto__\<close>: it allocates a new object whose entries are exactly those the
  per-key rule keeps, in their order, and leaves every other object as it was. The
  defaults of the options are \<open>removeUndefined = true\<close>, every other flag false,
  both key lists empty.
\<close>

lemma sanitizeObject_per_key_rule:
  assumes "obj < length h" and "distinct (map fst (props (deref h obj)))"
    and "\<not> has_own (props (deref h obj)) ''__proto__''"
    and "sanitizeObject h obj options = (h', result)"
  shows "deref h' result
           = plain (filter (entry_kept (destructure options)) (props (deref h obj)))
    \<and> deref h' obj = deref h obj"
  using sanitizeObject_result [OF assms] assms(1) by simp

lemma destructure_defaults:
  "destructure None =
     \<lparr>rmUndefined = True, rmNull = False, rmEmptyString = False, rmZero = False,
      rmNaN = False, exclKeys = [], inclKeys = []\<rparr>"
  "destructure (Some (no_options\<lparr>removeZero := Some True, removeNaN := Some True\<rparr>)) =
     \<lparr>rmUndefined = True, rmNull = False, rmEmptyString = False, rmZero = True,
      rmNaN = True, exclKeys = [], inclKeys = []\<rparr>"
  "destructure (Some (no_options\<lparr>removeUndefined := Some False, removeNull := Some True,
       removeEmptyString := Some True, excludeKeys := Some [''b''],
       includeKeys := Some [''c'']\<rparr>)) =
     \<lparr>rmUndefined = False, rmNull = True, rmEmptyString = True, rmZero = False,
      rmNaN = False, exclKeys = [''b''], inclKeys = [''c'']\<rparr>"
  by (simp_all add: destructure_def no_options_def nullish_def)

text \<open>
  The examples of the specification and of the source on a heap that holds the one
  object: the defaults remove only \<open>d: undefined\<close>; \<open>excludeKeys: ["b"]\<close> keeps
  \<open>b: null\<close> under \<open>removeNull\<close>; \<open>removeNull\<close> with \<open>removeEmptyString\<close> leaves \<open>a\<close>
  and \<open>e\<close>; \<open>removeZero\<close> with \<open>removeNaN\<close> removes \<open>0\<close> and \<open>NaN\<close>.
\<close>

lemma sanitizeObject_examples:
  "sanitizeObject
     [plain [(''a'', VNumber (Num 1)), (''b'', VNull), (''c'', VString []),
             (''d'', VUndefined), (''e'', VNumber (Num 0))]] 0 None
   = ([plain [(''a'', VNumber (Num 1)), (''b'', VNull), (''c'', VString []),
              (''d'', VUndefined), (''e'', VNumber (Num 0))],
       plain [(''a'', VNumber (Num 1)), (''b'', VNull), (''c'', VString []),
              (''e'', VNumber (Num 0))]], 1)"
  "sanitizeObject
     [plain [(''a'', VNumber (Num 1)), (''b'', VNull), (''c'', VString []),
             (''d'', VUndefined), (''e'', VNumber (Num 0))]] 0
     (Some (no_options\<lparr>removeNull := Some True, excludeKeys := Some [''b'']\<rparr>))
   = ([plain [(''a'', VNumber (Num 1)), (''b'', VNull), (''c'', VString []),
              (''d'', VUndefined), (''e'', VNumber (Num 0))],
       plain [(''a'', VNumber (Num 1)), (''b'', VNull), (''c'', VString []),
              (''e'', VNumber (Num 0))]], 1)"
  "sanitizeObject
     [plain [(''a'', VNumber (Num 1)), (''b'', VNull), (''c'', VString []),
             (''d'', VUndefined), (''e'', VNumber (Num 0))]] 0
     (Some (no_options\<lparr>removeNull := Some True, removeEmptyString := Some True\<rparr>))
   = ([plain [(''a'', VNumber (Num 1)), (''b'', VNull), (''c'', VString []),
              (''d'', VUndefined), (''e'', VNumber (Num 0))],
       plain [(''a'', VNumber (Num 1)), (''e'', VNumber (Num 0))]], 1)"
  "sanitizeObject
     [plain [(''a'', VNumber (Num 1)), (''d'', VNumber (Num 0)), (''e'', VNumber NaN),
             (''f'', VUndefined)]] 0
     (Some (no_options\<lparr>removeUndefined := Some False, removeZero := Some True,
        removeNaN := Some True\<rparr>))
   = ([plain [(''a'', VNumber (Num 1)), (''d'', VNumber (Num 0)), (''e'', VNumber NaN),
              (''f'', VUndefined)],
       plain [(''a'', VNumber (Num 1)), (''f'', VUndefined)]], 1)"
  by code_simp+

text \<open>
  Claim C7. The claim says that the rule holds for every object: an entry is kept
  when its key is in \<open>excludeKeys\<close>, or when no active predicate matches its value.
  The code writes a kept entry with \<open>result[key] = value\<close>, and on the new object
  that assignment, for the key \<open>__proto__\<close>, reaches the setter of
  \<open>Object.prototype\<close> and stores nothing. For the object
  \<open>{a: 1, __proto__: 2, b: 3}\<close> (its \<open>__proto__\<close> an own property, as \<open>JSON.parse\<close>
  makes it) the rule keeps all three entries, with the defaults and with
  \<open>excludeKeys: ["__proto__"]\<close>; the function returns \<open>{a: 1, b: 3}\<close> both times.
\<close>

theorem sanitizeObject_drops_proto_entry:
  "entry_kept (destructure None) (''__proto__'', VNumber (Num 2))
   \<and> entry_kept (destructure (Some (no_options\<lparr>excludeKeys := Some [''__proto__'']\<rparr>)))
        (''__proto__'', VNumber (Num 2))
   \<and> sanitizeObject
        [plain [(''a'', VNumber (Num 1)), (''__proto__'', VNumber (Num 2)),
                (''b'', VNumber (Num 3))]] 0 None
      = ([plain [(''a'', VNumber (Num 1)), (''__proto__'', VNumber (Num 2)),
                 (''b'', VNumber (Num 3))],
          plain [(''a'', VNumber (Num 1)), (''b'', VNumber (Num 3))]], 1)
   \<and> sanitizeObject
        [plain [(''a'', VNumber (Num 1)), (''__proto__'', VNumber (Num 2)),
                (''b'', VNumber (Num 3))]] 0
        (Some (no_options\<lparr>excludeKeys := Some [''__proto__'']\<rparr>))
      = ([plain [(''a'', VNumber (Num 1)), (''__proto__'', VNumber (Num 2)),
                 (''b'', VNumber (Num 3))],
          plain [(''a'', VNumber (Num 1)), (''b'', VNumber (Num 3))]], 1)"
  by code_simp

text \<open>
  What \<open>pick\<close> and \<open>omit\<close> do when no key of the list is an own key \<open>__proto__\<close> of
  the object: \<open>pick\<close> allocates an object with exactly the listed entries, \<open>omit\<close>
  one with exactly the others, the spread of the two has the entries of the
  object, and the object itself is as it was after either call. \<open>omit\<close> copies
  with a spread and needs no such condition.
\<close>

lemma pick_omit_without_proto:
  assumes "obj < length h" and "distinct (map fst (props (deref h obj)))"
    and "\<forall>k \<in> set ks. has_own (props (deref h obj)) k \<longrightarrow> k \<noteq> ''__proto__''"
    and "pick h obj ks = (h1, p)" and "omit h1 obj ks = (h2, q)"
  shows "set (props (deref h1 p)) = {e \<in> set (props (deref h obj)). fst e \<in> set ks}
    \<and> set (props (deref h2 q)) = {e \<in> set (props (deref h obj)). fst e \<notin> set ks}
    \<and> deep_equals (spread_merge (props (deref h2 p)) (props (deref h2 q)))
         (props (deref h obj))
    \<and> p \<noteq> obj \<and> q \<noteq> obj
    \<and> deref h1 obj = deref h obj
    \<and> deref h2 obj = deref h obj"
proof -
  note P = pick_result [OF assms(1,2,3,4)]
  have obj1: "obj < length h1" using assms(1) P(4) by simp
  have o1: "deref h1 obj = deref h obj" using P(5) assms(1) by simp
  have d1: "distinct (map fst (props (deref h1 obj)))" using assms(2) o1 by simp
  note Q = omit_result [OF obj1 d1 assms(5)]
  have p1: "p < length h1" using P(3,4) by simp
  have p2: "deref h2 p = deref h1 p" using Q(4) p1 by simp
  have o2: "deref h2 obj = deref h obj" using Q(4) obj1 o1 by simp
  have new: "p \<noteq> obj" "q \<noteq> obj" using P(3) Q(2) assms(1) obj1 by simp_all
  have sp: "set (props (deref h1 p)) = {e \<in> set (props (deref h obj)). fst e \<in> set ks}"
    by (rule P(1))
  have sq: "set (props (deref h2 q)) = {e \<in> set (props (deref h obj)). fst e \<notin> set ks}"
    unfolding Q(1) o1 by (auto simp: plain_def)
  have dq: "distinct (map fst (props (deref h2 q)))"
    unfolding Q(1) o1 using assms(2) by (simp add: distinct_map_filter plain_def)
  have "deep_equals (spread_merge (props (deref h2 p)) (props (deref h2 q)))
          (props (deref h obj))"
    using assms(2) P(2) dq sp sq unfolding p2 by (rule merge_complement)
  then show ?thesis using sp sq o1 o2 new by simp
qed

lemma omit_entries:
  assumes "obj < length h" and "distinct (map fst (props (deref h obj)))"
    and "omit h obj ks = (h', q)"
  shows "deref h' q = plain (filter (\<lambda>e. fst e \<notin> set ks) (props (deref h obj)))
    \<and> deref h' obj = deref h obj"
  using omit_result [OF assms] assms(1) by simp

text \<open>
  Claim C9. The claim says that \<open>pick(o, K)\<close> holds exactly the entries of \<open>o\<close>
  with a key in \<open>K\<close> and that \<open>{...pick(o, K), ...omit(o, K)}\<close> equals \<open>o\<close>.
  \<open>pick\<close> writes with \<open>result[key] = obj[key]\<close>, which stores nothing for the key
  \<open>__proto__\<close>: for \<open>o = {__proto__: 1, a: 2}\<close> (an own property) and
  \<open>K = ["__proto__"]\<close>, \<open>pick\<close> returns \<open>{}\<close>, \<open>omit\<close> returns \<open>{a: 2}\<close>, and their
  spread is \<open>{a: 2}\<close>, not \<open>o\<close>. Neither call changes \<open>o\<close>.
\<close>

theorem pick_drops_proto_entry:
  "has_own [(''__proto__'', VNumber (Num 1)), (''a'', VNumber (Num 2))] ''__proto__''
   \<and> pick [plain [(''__proto__'', VNumber (Num 1)), (''a'', VNumber (Num 2))]] 0
        [''__proto__'']
      = ([plain [(''__proto__'', VNumber (Num 1)), (''a'', VNumber (Num 2))],
          plain []], 1)
   \<and> omit [plain [(''__proto__'', VNumber (Num 1)), (''a'', VNumber (Num 2))],
            plain []] 0 [''__proto__'']
      = ([plain [(''__proto__'', VNumber (Num 1)), (''a'', VNumber (Num 2))],
          plain [], plain [(''a'', VNumber (Num 2))]], 2)
   \<and> spread_merge [] [(''a'', VNumber (Num 2))] = [(''a'', VNumber (Num 2))]
   \<and> \<not> deep_equals (spread_merge [] [(''a'', VNumber (Num 2))])
          [(''__proto__'', VNumber (Num 1)), (''a'', VNumber (Num 2))]"
  by code_simp

section \<open>The validation middleware\<close>

lemma get_prop_simps:
  "get_prop [] k = VUndefined"
  "get_prop (p # ps) k = (if fst p = k then snd p else get_prop ps k)"
  by (cases p; simp add: get_prop_def)+

lemma map_of_dataToValidate:
  "map_of (dataToValidate schema req) =
     (\<lambda>s. if s \<in> set sections \<and> truthy (get_prop (shape schema) s)
          then Some (request_field req s) else None)"
  by (auto simp: dataToValidate_def Let_def sections_def request_field_def fun_eq_iff)

lemma keys_dataToValidate:
  "map fst (dataToValidate schema req) =
     filter (\<lambda>s. truthy (get_prop (shape schema) s)) sections"
  by (simp add: dataToValidate_def Let_def sections_def)

lemma write_back_fields:
  "s \<in> set sections \<Longrightarrow>
   request_field (write_back validated req) s =
     (if get_prop validated s \<noteq> VUndefined then get_prop validated s
      else request_field req s)"
  by (auto simp: write_back_def Let_def sections_def request_field_def)

text \<open>
  Claim C8, as amended. \<open>validateMiddleware(schema)\<close> builds the object to validate
  from exactly the sections among body, query and params that the schema declares,
  in that order, each read from the request field of its name. When validation
  succeeds it calls \<open>next()\<close> and has overwritten each of the three request fields
  whose validated value is not \<open>undefined\<close> with that value; a field whose
  validated value is \<open>undefined\<close> is left as it was. When validation fails with
  the engine's error list it leaves the request as it was and passes to \<open>next\<close> a
  \<open>ValidationError\<close> with \<open>statusCode\<close> 400 and one \<open>{field, message}\<close> item per
  entry of the list, in order, \<open>field\<close> being the path joined with dots.
\<close>

theorem validateMiddleware_contract:
  "map fst (dataToValidate schema req)
      = filter (\<lambda>s. truthy (get_prop (shape schema) s)) sections
   \<and> (\<forall>s. has_own (dataToValidate schema req) s \<longrightarrow>
         get_prop (dataToValidate schema req) s = request_field req s)
   \<and> (\<forall>validated. parseAsync schema (dataToValidate schema req) = Resolved validated \<longrightarrow>
         snd (validateMiddleware schema req) = NoArgument
         \<and> (\<forall>s \<in> set sections.
              request_field (fst (validateMiddleware schema req)) s =
                (if get_prop validated s \<noteq> VUndefined then get_prop validated s
                 else request_field req s)))
   \<and> (\<forall>issues.
         parseAsync schema (dataToValidate schema req) = Rejected (WithErrors issues) \<longrightarrow>
         fst (validateMiddleware schema req) = req
         \<and> (\<exists>e. snd (validateMiddleware schema req) = PassValidationError e
              \<and> statusCode e = 400
              \<and> errors e =
                  map (\<lambda>i. \<lparr>field = join ''.'' (map segment_string (fst i)),
                            message = snd i\<rparr>) issues))"
proof -
  have keys: "map fst (dataToValidate schema req)
      = filter (\<lambda>s. truthy (get_prop (shape schema) s)) sections"
    by (rule keys_dataToValidate)
  have reads: "\<forall>s. has_own (dataToValidate schema req) s \<longrightarrow>
         get_prop (dataToValidate schema req) s = request_field req s"
    by (auto simp: has_own_dom get_prop_def map_of_dataToValidate split: if_splits)
  have ok: "\<forall>validated.
         parseAsync schema (dataToValidate schema req) = Resolved validated \<longrightarrow>
         snd (validateMiddleware schema req) = NoArgument
         \<and> (\<forall>s \<in> set sections.
              request_field (fst (validateMiddleware schema req)) s =
                (if get_prop validated s \<noteq> VUndefined then get_prop validated s
                 else request_field req s))"
    by (simp add: validateMiddleware_def write_back_fields)
  have bad: "\<forall>issues.
         parseAsync schema (dataToValidate schema req) = Rejected (WithErrors issues) \<longrightarrow>
         fst (validateMiddleware schema req) = req
         \<and> (\<exists>e. snd (validateMiddleware schema req) = PassValidationError e
              \<and> statusCode e = 400
              \<and> errors e =
                  map (\<lambda>i. \<lparr>field = join ''.'' (map segment_string (fst i)),
                            message = snd i\<rparr>) issues)"
    by (simp add: validateMiddleware_def Let_def new_ValidationError_def parseZodError_def
        nullish_def)
  show ?thesis using keys reads ok bad by blast
qed

text \<open>
  The amended claim C8 on a request \<open>{body: "raw", query, params}\<close>: a schema that
  declares body and query and whose engine replaces the body validates
  \<open>{body, query}\<close> and overwrites both fields; a schema whose engine rejects with
  two issues passes a \<open>ValidationError\<close> with status 400 and the two items, in
  order, to \<open>next\<close>.
\<close>

theorem validateMiddleware_contract_witness:
  "map fst (dataToValidate
      \<lparr>shape = [(''body'', VObject 0), (''query'', VObject 1)],
       parseAsync = (\<lambda>d. Resolved [(''body'', VObject 7), (''query'', get_prop d ''query'')])\<rparr>
      \<lparr>body = VString ''raw'', query = VObject 3, params = VObject 4\<rparr>)
     = [''body'', ''query'']
   \<and> validateMiddleware
      \<lparr>shape = [(''body'', VObject 0), (''query'', VObject 1)],
       parseAsync = (\<lambda>d. Resolved [(''body'', VObject 7), (''query'', get_prop d ''query'')])\<rparr>
      \<lparr>body = VString ''raw'', query = VObject 3, params = VObject 4\<rparr>
     = (\<lparr>body = VObject 7, query = VObject 3, params = VObject 4\<rparr>, NoArgument)
   \<and> validateMiddleware
      \<lparr>shape = [(''body'', VObject 0)],
       parseAsync = (\<lambda>d. Rejected (WithErrors
         [([Key ''body'', Key ''email''], ''Invalid email''),
          ([Key ''body'', Key ''tags'', Index 12], ''Required'')]))\<rparr>
      \<lparr>body = VString ''raw'', query = VObject 3, params = VObject 4\<rparr>
     = (\<lparr>body = VString ''raw'', query = VObject 3, params = VObject 4\<rparr>,
        PassValidationError
          \<lparr>error_name = ''ValidationError'', error_message = ''Invalid email'',
           statusCode = 400, code = ''VALIDATION_ERROR'',
           errors = [\<lparr>field = ''body.email'', message = ''Invalid email''\<rparr>,
                     \<lparr>field = ''body.tags.12'', message = ''Required''\<rparr>]\<rparr>)"
  using
    validateMiddleware_contract [of
      "\<lparr>shape = [(''body'', VObject 0), (''query'', VObject 1)],
        parseAsync = (\<lambda>d. Resolved [(''body'', VObject 7), (''query'', get_prop d ''query'')])\<rparr>"
      "\<lparr>body = VString ''raw'', query = VObject 3, params = VObject 4\<rparr>"]
    validateMiddleware_contract [of
      "\<lparr>shape = [(''body'', VObject 0)],
        parseAsync = (\<lambda>d. Rejected (WithErrors
          [([Key ''body'', Key ''email''], ''Invalid email''),
           ([Key ''body'', Key ''tags'', Index 12], ''Required'')]))\<rparr>"
      "\<lparr>body = VString ''raw'', query = VObject 3, params = VObject 4\<rparr>"]
  by (simp add: validateMiddleware_def dataToValidate_def write_back_def get_prop_simps
      parseZodError_def new_ValidationError_def nullish_def sections_def Let_def
      string_of_nat.simps)

text \<open>
  Claim C8 as it was stated fails: the schema declares body, the engine's validated
  body is \<open>undefined\<close>, and the middleware leaves \<open>req.body\<close> as it was instead of
  overwriting it with the validated value.
\<close>

theorem validateMiddleware_overwrite_counterexample:
  "truthy (get_prop (shape \<lparr>shape = [(''body'', VObject 0)],
        parseAsync = (\<lambda>d. Resolved [(''body'', VUndefined)])\<rparr>) ''body'')
   \<and> parseAsync \<lparr>shape = [(''body'', VObject 0)],
        parseAsync = (\<lambda>d. Resolved [(''body'', VUndefined)])\<rparr>
       (dataToValidate \<lparr>shape = [(''body'', VObject 0)],
          parseAsync = (\<lambda>d. Resolved [(''body'', VUndefined)])\<rparr>
          \<lparr>body = VString ''raw'', query = VUndefined, params = VUndefined\<rparr>)
      = Resolved [(''body'', VUndefined)]
   \<and> body (fst (validateMiddleware
        \<lparr>shape = [(''body'', VObject 0)],
         parseAsync = (\<lambda>d. Resolved [(''body'', VUndefined)])\<rparr>
        \<lparr>body = VString ''raw'', query = VUndefined, params = VUndefined\<rparr>))
      = VString ''raw''
   \<and> body (fst (validateMiddleware
        \<lparr>shape = [(''body'', VObject 0)],
         parseAsync = (\<lambda>d. Resolved [(''body'', VUndefined)])\<rparr>
        \<lparr>body = VString ''raw'', query = VUndefined, params = VUndefined\<rparr>))
      \<noteq> get_prop [(''body'', VUndefined)] ''body''"
  by (simp add: validateMiddleware_def write_back_def get_prop_simps Let_def)

end
